theory Spec2Isabelle
  imports Complex_Main "HOL-Library.Log_Nat"
begin

section \<open>JavaScript numbers\<close>

text \<open>
  Every number of \<^verbatim>\<open>index.js\<close> is an IEEE-754 binary64 value. A finite value is
  carried by the rational it denotes; the two zeros are identified (the program never
  divides by a zero, so their sign is not observable). An operation computes the exact
  rational result and rounds it to the nearest binary64 value, ties to even
  (\<open>rnd\<close>): 53 significant bits, the smallest spacing \<open>2^-1074\<close>, overflow to
  an infinity from \<open>2^1024\<close> on (which takes a magnitude of \<open>2^1023\<close> at least).
\<close>

datatype jsnum = NaN | PosInf | NegInf | Fin rat

definition pow2 :: "int \<Rightarrow> rat" where
  "pow2 k = (if 0 \<le> k then 2 ^ nat k else 1 / 2 ^ nat (- k))"

definition ilog2 :: "rat \<Rightarrow> int" where
  \<comment> \<open>for \<open>0 < a\<close>: the \<open>k\<close> with \<open>2^k \<le> a < 2^(k+1)\<close>\<close>
  "ilog2 a = (let (n, d) = quotient_of a; k = bitlen n - bitlen d
              in if pow2 k \<le> a then k else k - 1)"

definition round_half_even :: "rat \<Rightarrow> int" where
  "round_half_even m =
     (let n = \<lfloor>m\<rfloor>; f = m - of_int n
      in if f < 1 / 2 then n else if 1 / 2 < f then n + 1
         else if even n then n else n + 1)"

definition rnd :: "rat \<Rightarrow> jsnum" where
  "rnd q =
     (if q = 0 then Fin 0
      else let a = \<bar>q\<bar>; e = ilog2 a; t = max (e - 52) (- 1074);
               r = of_int (round_half_even (a / pow2 t)) * pow2 t
           in if e < 1023 then Fin (if 0 < q then r else - r)
              else if pow2 1024 \<le> r then (if 0 < q then PosInf else NegInf)
              else Fin (if 0 < q then r else - r))"

fun js_mul :: "jsnum \<Rightarrow> jsnum \<Rightarrow> jsnum" where
  "js_mul NaN _ = NaN"
| "js_mul _ NaN = NaN"
| "js_mul (Fin a) (Fin b) = rnd (a * b)"
| "js_mul (Fin a) PosInf = (if a = 0 then NaN else if 0 < a then PosInf else NegInf)"
| "js_mul (Fin a) NegInf = (if a = 0 then NaN else if 0 < a then NegInf else PosInf)"
| "js_mul PosInf (Fin b) = (if b = 0 then NaN else if 0 < b then PosInf else NegInf)"
| "js_mul NegInf (Fin b) = (if b = 0 then NaN else if 0 < b then NegInf else PosInf)"
| "js_mul PosInf PosInf = PosInf"
| "js_mul PosInf NegInf = NegInf"
| "js_mul NegInf PosInf = NegInf"
| "js_mul NegInf NegInf = PosInf"

fun js_div :: "jsnum \<Rightarrow> jsnum \<Rightarrow> jsnum" where
  "js_div NaN _ = NaN"
| "js_div _ NaN = NaN"
| "js_div (Fin a) (Fin b) =
     (if b = 0 then (if a = 0 then NaN else if 0 < a then PosInf else NegInf)
      else rnd (a / b))"
| "js_div (Fin a) PosInf = Fin 0"
| "js_div (Fin a) NegInf = Fin 0"
| "js_div PosInf (Fin b) = (if 0 \<le> b then PosInf else NegInf)"
| "js_div NegInf (Fin b) = (if 0 \<le> b then NegInf else PosInf)"
| "js_div PosInf PosInf = NaN"
| "js_div PosInf NegInf = NaN"
| "js_div NegInf PosInf = NaN"
| "js_div NegInf NegInf = NaN"

fun js_sub :: "jsnum \<Rightarrow> jsnum \<Rightarrow> jsnum" where
  "js_sub NaN _ = NaN"
| "js_sub _ NaN = NaN"
| "js_sub (Fin a) (Fin b) = rnd (a - b)"
| "js_sub (Fin a) PosInf = NegInf"
| "js_sub (Fin a) NegInf = PosInf"
| "js_sub PosInf (Fin b) = PosInf"
| "js_sub NegInf (Fin b) = NegInf"
| "js_sub PosInf PosInf = NaN"
| "js_sub PosInf NegInf = PosInf"
| "js_sub NegInf PosInf = NegInf"
| "js_sub NegInf NegInf = NaN"

text \<open>\<^verbatim>\<open>Math.floor\<close>: the floor of a binary64 value is a binary64 value.\<close>

fun js_floor :: "jsnum \<Rightarrow> jsnum" where
  "js_floor (Fin a) = Fin (of_int \<lfloor>a\<rfloor>)"
| "js_floor x = x"

text \<open>
  \<^verbatim>\<open>Math.pow(10, d)\<close> for a count of decimals \<open>d\<close>. Up to \<open>d = 22\<close> the power is a
  binary64 value and \<open>rnd\<close> leaves it as it is; beyond, ECMAScript leaves the last bit
  to the engine, and the model takes the correctly rounded value.
\<close>

definition js_pow10 :: "nat \<Rightarrow> jsnum" where
  "js_pow10 d = rnd (10 ^ d)"

text \<open>The comparisons \<^verbatim>\<open><\<close> and \<^verbatim>\<open>>=\<close>: false as soon as an operand is NaN.\<close>

fun js_lt :: "jsnum \<Rightarrow> jsnum \<Rightarrow> bool" where
  "js_lt NaN _ = False"
| "js_lt _ NaN = False"
| "js_lt (Fin a) (Fin b) = (a < b)"
| "js_lt (Fin a) PosInf = True"
| "js_lt (Fin a) NegInf = False"
| "js_lt PosInf _ = False"
| "js_lt NegInf NegInf = False"
| "js_lt NegInf _ = True"

fun js_ge :: "jsnum \<Rightarrow> jsnum \<Rightarrow> bool" where
  "js_ge NaN _ = False"
| "js_ge _ NaN = False"
| "js_ge (Fin a) (Fin b) = (b \<le> a)"
| "js_ge (Fin a) PosInf = False"
| "js_ge (Fin a) NegInf = True"
| "js_ge PosInf _ = True"
| "js_ge NegInf NegInf = True"
| "js_ge NegInf _ = False"

text \<open>
  The values a price can take: the \<^verbatim>\<open>price\<close> member of a JSON entry (a number,
  \<^verbatim>\<open>null\<close>, or \<^verbatim>\<open>undefined\<close> when the member is missing), and the \<^verbatim>\<open>null\<close> that
  \<^verbatim>\<open>tradeTokenWithJupiter\<close> puts in \<^verbatim>\<open>initialPrice\<close>. \<open>to_number\<close> is the
  coercion the arithmetic and relational operators apply, \<open>truthy\<close> the one of
  \<^verbatim>\<open>if\<close> and \<^verbatim>\<open>&&\<close>.
\<close>

datatype jsval = Undefined | Null | Number jsnum

fun to_number :: "jsval \<Rightarrow> jsnum" where
  "to_number Undefined = NaN"
| "to_number Null = Fin 0"
| "to_number (Number n) = n"

fun truthy :: "jsval \<Rightarrow> bool" where
  "truthy Undefined = False"
| "truthy Null = False"
| "truthy (Number n) = (n \<noteq> NaN \<and> n \<noteq> Fin 0)"

section \<open>The observable trace\<close>

text \<open>
  A run is observed through the requests it sends, the timers it sets, the lines it
  logs and the exit it asks for, in order. A log line keeps its level and the fixed
  part of its message.
\<close>

datatype level = INFO | WARN | ERROR

datatype details = NoDetails | MissingVars "string list" | ErrorDetail string

datatype event =
    LogLine level string details
  | PriceQuery string
  | MintAccountQuery string
  | BalanceQuery
  | TokenBalanceQuery string
  | QuoteRequest string string jsnum jsnum
  | SwapRequest string
  | TipAccountsQuery
  | BlockhashQuery
  | BundleSubmit
  | Sleep nat
  | ProcessExit int

fun is_network :: "event \<Rightarrow> bool" where
  "is_network (LogLine _ _ _) = False"
| "is_network (Sleep _) = False"
| "is_network (ProcessExit _) = False"
| "is_network _ = True"

definition logTransaction :: "level \<Rightarrow> string \<Rightarrow> details \<Rightarrow> event list" where
  "logTransaction lvl message det = [LogLine lvl message det]"

text \<open>
  A promise settles one way or the other. A step of an \<^verbatim>\<open>async\<close> body either throws
  (\<open>Inl\<close> the message) or yields a value, and leaves its events behind; \<open>andThen\<close>
  is the sequencing of two \<^verbatim>\<open>await\<close>ed statements.
\<close>

datatype 'a reply = Rejects string | Resolves 'a

type_synonym 'a step = "(string + 'a) \<times> event list"

definition andThen :: "'a step \<Rightarrow> ('a \<Rightarrow> 'b step) \<Rightarrow> 'b step" where
  "andThen m f =
     (case m of
        (Inl e, evs) \<Rightarrow> (Inl e, evs)
      | (Inr x, evs) \<Rightarrow> (case f x of (r, evs') \<Rightarrow> (r, evs @ evs')))"

definition await :: "event \<Rightarrow> 'a reply \<Rightarrow> 'a step" where
  "await ev r = (case r of Rejects e \<Rightarrow> (Inl e, [ev]) | Resolves x \<Rightarrow> (Inr x, [ev]))"

definition throw :: "string \<Rightarrow> 'a step" where
  "throw e = (Inl e, [])"

definition yield :: "'a \<Rightarrow> 'a step" where
  "yield x = (Inr x, [])"

definition emit :: "event list \<Rightarrow> unit step" where
  "emit evs = (Inr (), evs)"

section \<open>getTokenInfo\<close>

text \<open>
  The reply to \<^verbatim>\<open>axios.get(jupiterApiUrl)\<close>, as far as the code looks into it:
  \<^verbatim>\<open>response.data\<close> (\<open>None\<close> when falsy), then \<^verbatim>\<open>response.data.data\<close> (\<open>None\<close>
  when falsy), then the entries keyed by mint (no entry when \<^verbatim>\<open>data[mint]\<close> is
  falsy), each entry given by its \<^verbatim>\<open>price\<close> member.

  The reply to \<^verbatim>\<open>getParsedAccountInfo\<close>: \<^verbatim>\<open>value\<close> (\<open>None\<close> for \<^verbatim>\<open>null\<close>), then
  \<^verbatim>\<open>data.parsed\<close> (\<open>None\<close> when the account data is not parsed), then \<^verbatim>\<open>info\<close>
  (\<open>None\<close> when missing), then the \<^verbatim>\<open>freezeAuthority\<close> member. Reading a member of
  \<^verbatim>\<open>null\<close> or \<^verbatim>\<open>undefined\<close> throws a TypeError.
\<close>

type_synonym jupiter_body = "((string \<rightharpoonup> jsval) option) option"

datatype authority = AuthUndefined | AuthNull | AuthKey string

type_synonym mint_account = "((authority option) option) option"

record price_env =
  jupiter_r :: "jupiter_body reply"
  mintKey_ok :: bool
  mintAccount_r :: "mint_account reply"

record tokenInfo =
  price :: jsval
  source :: string
  isFreezable :: bool

definition fetchFromJupiter :: "string \<Rightarrow> price_env \<Rightarrow> (jsval \<times> string) step" where
  "fetchFromJupiter mint env =
     andThen (await (PriceQuery mint) (jupiter_r env)) (\<lambda>response.
       case response of
         Some (Some entries) \<Rightarrow>
           (case entries mint of
              Some p \<Rightarrow> yield (p, ''jupiter'')
            | None \<Rightarrow> throw ''Jupiter API failed to return a valid price.'')
       | _ \<Rightarrow> throw ''Jupiter API failed to return a valid price.'')"

definition freezeAuthority_of :: "mint_account \<Rightarrow> authority step" where
  "freezeAuthority_of mintAccountInfo =
     (case mintAccountInfo of
        Some (Some (Some a)) \<Rightarrow> yield a
      | _ \<Rightarrow> throw ''TypeError: Cannot read properties of undefined'')"

text \<open>The body of the \<^verbatim>\<open>try\<close> block (lines 65 to 110).\<close>

definition getTokenInfo_try :: "string \<Rightarrow> price_env \<Rightarrow> tokenInfo step" where
  "getTokenInfo_try mint env =
     andThen (fetchFromJupiter mint env) (\<lambda>(p, src).
     andThen (if mintKey_ok env then yield () else throw ''Invalid public key input'') (\<lambda>_.
     andThen (await (MintAccountQuery mint) (mintAccount_r env)) (\<lambda>mintAccountInfo.
     andThen (freezeAuthority_of mintAccountInfo) (\<lambda>freezeAuthority.
       yield \<lparr>price = p, source = src, isFreezable = (freezeAuthority \<noteq> AuthNull)\<rparr>))))"

text \<open>The \<^verbatim>\<open>catch\<close> logs and falls through to \<^verbatim>\<open>return null\<close> (\<open>None\<close>).\<close>

definition getTokenInfo :: "string \<Rightarrow> price_env \<Rightarrow> tokenInfo option \<times> event list" where
  "getTokenInfo mint env =
     (case getTokenInfo_try mint env of
        (Inr info, evs) \<Rightarrow> (Some info, evs)
      | (Inl e, evs) \<Rightarrow>
          (None, evs @ logTransaction ERROR ''Error fetching token info'' (ErrorDetail e)))"

section \<open>waitForPriceAvailability\<close>

text \<open>
  The loop has no bound. The world is given by the replies to the successive calls of
  \<^verbatim>\<open>getTokenInfo\<close>, as many as are known; a run that has used them all without
  returning is \<open>Pending\<close>, still polling.
\<close>

datatype 'a outcome = Returns 'a | Pending

fun waitForPriceAvailability :: "string \<Rightarrow> price_env list \<Rightarrow> jsval outcome \<times> event list" where
  "waitForPriceAvailability tokenAddress [] = (Pending, [])"
| "waitForPriceAvailability tokenAddress (env # envs) =
     (case getTokenInfo tokenAddress env of (tokenInfo, evs) \<Rightarrow>
        let again =
          (case waitForPriceAvailability tokenAddress envs of (r, evs') \<Rightarrow>
             (r, evs @ logTransaction WARN ''Price not available yet'' NoDetails
                   @ [Sleep 1500] @ evs'))
        in case tokenInfo of
             None \<Rightarrow> again
           | Some info \<Rightarrow>
               if truthy (price info)
               then (Returns (price info),
                     evs @ logTransaction INFO ''Price available for token'' NoDetails)
               else again)"

section \<open>tradeTokenWithJupiter\<close>

definition solAddress :: string where
  "solAddress = ''So11111111111111111111111111111111111111112''"

definition LAMPORTS_PER_SOL :: jsnum where
  "LAMPORTS_PER_SOL = Fin 1000000000"

definition SOLANA_GAS_FEE_PRICE :: jsnum where
  "SOLANA_GAS_FEE_PRICE = js_mul (rnd (5 / 1000000)) LAMPORTS_PER_SOL"

definition JITO_TIP_AMOUNT :: jsnum where
  "JITO_TIP_AMOUNT = js_mul (rnd (1 / 100000)) LAMPORTS_PER_SOL"

text \<open>
  What one attempt hears from the outside, call by call, in the order of the source:
  the balance; the associated token account (\<^verbatim>\<open>new PublicKey\<close> and
  \<^verbatim>\<open>getAssociatedTokenAddress\<close> compute it and throw on a bad address) and its
  balance, whose \<^verbatim>\<open>uiAmount\<close> is a number or \<^verbatim>\<open>null\<close>; the two HTTP responses with
  their \<^verbatim>\<open>ok\<close> flag and what \<^verbatim>\<open>json()\<close> gives (\<open>None\<close> when it rejects; for the
  swap, the \<^verbatim>\<open>swapTransaction\<close> member when there is one); whether decoding,
  deserialising and signing go through; whether the bundle takes the transaction; the
  tip accounts and whether the first is a public key; the block hash; whether the
  bundle takes the tip; the identifier the relay answers (the empty string is falsy);
  and the replies to the price query that follows a buy.
\<close>

record token_amount =
  uiAmount :: jsval
  decimals :: nat

record 'b http_response =
  ok :: bool
  body :: "'b option"

record attempt_env =
  getBalance_r :: "jsnum reply"
  tokenAccount_r :: "string reply"
  getTokenAccountBalance_r :: "token_amount reply"
  quote_r :: "string http_response reply"
  swap_r :: "(string option) http_response reply"
  transaction_ok :: bool
  addTransactions_ok :: bool
  getTipAccounts_r :: "string list reply"
  tipAccount_ok :: bool
  getLatestBlockhash_r :: "string reply"
  addTipTx_ok :: bool
  sendBundle_r :: "string reply"
  postBuy :: price_env

text \<open>
  What the function can give back: \<^verbatim>\<open>false\<close>, the object
  \<^verbatim>\<open>{ success: true, initialPrice }\<close>, or nothing at all when control leaves the
  \<^verbatim>\<open>while\<close> by its condition (\<^verbatim>\<open>undefined\<close>).
\<close>

datatype trade_result = TradeFalse | TradeSuccess jsval | TradeUndefined

text \<open>Line 142 and line 154.\<close>

definition buyAmount :: "jsnum \<Rightarrow> jsnum \<Rightarrow> jsnum" where
  "buyAmount balance percentage =
     js_sub (js_sub (js_floor (js_mul balance (js_div percentage (Fin 100))))
                    SOLANA_GAS_FEE_PRICE)
            JITO_TIP_AMOUNT"

definition sellAmount :: "token_amount \<Rightarrow> jsnum \<Rightarrow> jsnum" where
  "sellAmount tokenBalance percentage =
     js_floor (js_mul (js_mul (to_number (uiAmount tokenBalance))
                              (js_div percentage (Fin 100)))
                      (js_pow10 (decimals tokenBalance)))"

definition check :: "bool \<Rightarrow> string \<Rightarrow> unit step" where
  "check b e = (if b then yield () else throw e)"

text \<open>Lines 159 to 213: quote, build, sign, bundle, tip, submit, and the price after a buy.\<close>

definition swapAndSend ::
  "string \<Rightarrow> bool \<Rightarrow> jsnum \<Rightarrow> attempt_env \<Rightarrow> jsnum \<Rightarrow> string \<Rightarrow> string \<Rightarrow> trade_result step" where
  "swapAndSend tokenAddress isBuy slippage env amount inputMint outputMint =
     andThen (await (QuoteRequest inputMint outputMint amount (js_mul slippage (Fin 100)))
                    (quote_r env)) (\<lambda>response.
     andThen (check (ok response) ''HTTP quote error!'') (\<lambda>_.
     andThen (case body response of Some routes \<Rightarrow> yield routes
                | None \<Rightarrow> throw ''invalid json response body'') (\<lambda>routes.
     andThen (await (SwapRequest routes) (swap_r env)) (\<lambda>transaction_response.
     andThen (check (ok transaction_response) ''HTTP error!'') (\<lambda>_.
     andThen (case body transaction_response of Some (Some tx) \<Rightarrow> yield tx
                | _ \<Rightarrow> throw ''TypeError: no swapTransaction'') (\<lambda>swapTransaction.
     andThen (check (transaction_ok env) ''transaction cannot be deserialized or signed'') (\<lambda>_.
     andThen (check (addTransactions_ok env) ''bundle error'') (\<lambda>_.
     andThen (await TipAccountsQuery (getTipAccounts_r env)) (\<lambda>tipAccounts.
     andThen (case tipAccounts of a # _ \<Rightarrow> check (tipAccount_ok env) ''Invalid public key input''
                | [] \<Rightarrow> throw ''Invalid public key input'') (\<lambda>_.
     andThen (await BlockhashQuery (getLatestBlockhash_r env)) (\<lambda>blockhash.
     andThen (check (addTipTx_ok env) ''bundle error'') (\<lambda>_.
     andThen (emit (logTransaction INFO ''Sending bundle...'' NoDetails)) (\<lambda>_.
     andThen (await BundleSubmit (sendBundle_r env)) (\<lambda>bundleUuid.
       if bundleUuid \<noteq> [] then
         andThen (emit (logTransaction INFO ''Bundle sent successfully'' NoDetails
                        @ logTransaction INFO ''waiting confirmation.'' NoDetails)) (\<lambda>_.
           if isBuy then
             (case getTokenInfo tokenAddress (postBuy env) of (tokenInfo, evs) \<Rightarrow>
                let initialPrice = (case tokenInfo of Some info \<Rightarrow> price info | None \<Rightarrow> Null)
                in (Inr (TradeSuccess initialPrice),
                    evs @ logTransaction INFO ''Initial Price. Initiating sell...'' NoDetails))
           else yield (TradeSuccess Null))
       else throw ''Bundle UUID not received''))))))))))))))"

text \<open>Lines 136 to 157, then the rest: the body of the \<^verbatim>\<open>try\<close> block.\<close>

definition attempt :: "string \<Rightarrow> jsnum \<Rightarrow> bool \<Rightarrow> jsnum \<Rightarrow> attempt_env \<Rightarrow> trade_result step" where
  "attempt tokenAddress percentage isBuy slippage env =
     andThen (emit (logTransaction INFO
                (if isBuy then ''Starting buy transaction'' else ''Starting sell transaction'')
                NoDetails)) (\<lambda>_.
       if isBuy then
         andThen (await BalanceQuery (getBalance_r env)) (\<lambda>balance.
           let amount = buyAmount balance percentage in
           if js_lt amount (Fin 0) then
             andThen (emit (logTransaction ERROR
                        ''Amount is less than gas fee and tip to Jito'' NoDetails)) (\<lambda>_.
               yield TradeFalse)
           else swapAndSend tokenAddress isBuy slippage env amount solAddress tokenAddress)
       else
         andThen (case tokenAccount_r env of Rejects e \<Rightarrow> throw e | Resolves a \<Rightarrow> yield a)
           (\<lambda>tokenAccount.
         andThen (await (TokenBalanceQuery tokenAccount) (getTokenAccountBalance_r env))
           (\<lambda>tokenBalance.
           swapAndSend tokenAddress isBuy slippage env (sellAmount tokenBalance percentage)
             tokenAddress solAddress)))"

text \<open>
  The \<^verbatim>\<open>while (retries < maxRetries)\<close> loop with its \<^verbatim>\<open>catch\<close>. \<open>envs k\<close> is what
  the attempt made after \<open>k\<close> failures hears. The timer is recorded with the delay it is
  given, in milliseconds.
\<close>

function tradeLoop ::
  "string \<Rightarrow> jsnum \<Rightarrow> bool \<Rightarrow> jsnum \<Rightarrow> int \<Rightarrow> (nat \<Rightarrow> attempt_env) \<Rightarrow> nat
     \<Rightarrow> trade_result \<times> event list" where
  "tradeLoop tokenAddress percentage isBuy slippage maxRetries envs retries =
     (if int retries < maxRetries then
        (case attempt tokenAddress percentage isBuy slippage (envs retries) of
           (Inr r, evs) \<Rightarrow> (r, evs)
         | (Inl e, evs) \<Rightarrow>
             let retries' = retries + 1;
                 evs1 = evs @ logTransaction WARN ''Attempt failed to send bundle to JITO''
                                 (ErrorDetail e)
             in if int retries' \<ge> maxRetries
                then (TradeFalse,
                      evs1 @ logTransaction ERROR
                               ''Max retries reached. Failed to send bundle to JITO''
                               (ErrorDetail e))
                else (case tradeLoop tokenAddress percentage isBuy slippage maxRetries envs
                             retries' of
                        (r, evs2) \<Rightarrow> (r, evs1 @ [Sleep (2 ^ retries' * 1000)] @ evs2)))
      else (TradeUndefined, []))"
  by pat_completeness auto
termination
  by (relation "measure (\<lambda>(tokenAddress, percentage, isBuy, slippage, maxRetries, envs, retries).
                   nat (maxRetries - int retries))") auto

declare tradeLoop.simps [simp del]

definition tradeTokenWithJupiter ::
  "string \<Rightarrow> jsnum \<Rightarrow> bool \<Rightarrow> jsnum \<Rightarrow> int \<Rightarrow> (nat \<Rightarrow> attempt_env)
     \<Rightarrow> trade_result \<times> event list" where
  "tradeTokenWithJupiter tokenAddress percentage isBuy slippage maxRetries envs =
     tradeLoop tokenAddress percentage isBuy slippage maxRetries envs 0"

section \<open>monitorAndSell\<close>

text \<open>
  The polling loop of lines 238 to 247, given the threshold: the replies to the
  successive price queries, as many as are known, and what the attempts of the sell
  hear. The sell is the call \<^verbatim>\<open>tradeTokenWithJupiter(tokenAddress, 100, false)\<close>, with
  the defaults \<^verbatim>\<open>slippage = 5\<close> and \<^verbatim>\<open>maxRetries = 3\<close>; its result is dropped.
\<close>

definition targetMet :: "tokenInfo option \<Rightarrow> jsnum \<Rightarrow> bool" where
  \<comment> \<open>\<^verbatim>\<open>currentPriceInfo && currentPriceInfo.price >= threshold\<close>\<close>
  "targetMet currentPriceInfo threshold =
     (case currentPriceInfo of
        None \<Rightarrow> False
      | Some info \<Rightarrow> js_ge (to_number (price info)) threshold)"

fun monitorLoop ::
  "string \<Rightarrow> jsnum \<Rightarrow> price_env list \<Rightarrow> (nat \<Rightarrow> attempt_env) \<Rightarrow> unit outcome \<times> event list" where
  "monitorLoop tokenAddress threshold [] sell = (Pending, [])"
| "monitorLoop tokenAddress threshold (env # envs) sell =
     (case getTokenInfo tokenAddress env of (currentPriceInfo, evs) \<Rightarrow>
        if targetMet currentPriceInfo threshold then
          (case tradeTokenWithJupiter tokenAddress (Fin 100) False (Fin 5) 3 sell of
             (r, evs') \<Rightarrow>
               (Returns (), evs @ logTransaction INFO ''Price target met!'' NoDetails @ evs'))
        else
          (case monitorLoop tokenAddress threshold envs sell of
             (r, evs') \<Rightarrow>
               (r, evs @ logTransaction INFO ''Monitoring price...'' NoDetails
                     @ [Sleep 2000] @ evs')))"

definition sellThreshold :: "jsval \<Rightarrow> jsnum" where
  \<comment> \<open>\<^verbatim>\<open>initialPrice * 1.2\<close>; the literal is the binary64 value nearest to 1.2\<close>
  "sellThreshold initialPrice = js_mul (to_number initialPrice) (rnd (12 / 10))"

definition monitorAndSell ::
  "string \<Rightarrow> jsval \<Rightarrow> price_env list \<Rightarrow> (nat \<Rightarrow> attempt_env) \<Rightarrow> unit outcome \<times> event list" where
  "monitorAndSell tokenAddress initialPrice envs sell =
     (if initialPrice = Null then
        (Returns (),
         logTransaction ERROR
           ''Failed to retrieve initial price, cannot monitor price changes.'' NoDetails)
      else monitorLoop tokenAddress (sellThreshold initialPrice) envs sell)"

section \<open>Start-up\<close>

text \<open>
  \<^verbatim>\<open>process.env\<close> maps names to strings; \<^verbatim>\<open>!process.env[v]\<close> holds for a name that is
  not set and for one set to the empty string. The module's top level (lines 13 to 39)
  runs first: it throws when \<^verbatim>\<open>PRIVATE_KEY\<close> is missing, and when the key does not
  decode (\<open>decodes\<close> stands for \<^verbatim>\<open>bs58.decode\<close> and \<^verbatim>\<open>Keypair.fromSecretKey\<close>
  accepting it). No handler is installed at that point (lines 286 and 287 come
  later), so the exception ends the process. Only then does \<^verbatim>\<open>main\<close> call
  \<^verbatim>\<open>checkEnvVariables\<close>.
\<close>

type_synonym process_env = "string \<rightharpoonup> string"

definition isSet :: "process_env \<Rightarrow> string \<Rightarrow> bool" where
  "isSet penv v = (case penv v of None \<Rightarrow> False | Some s \<Rightarrow> s \<noteq> [])"

definition requiredEnvVars :: "string list" where
  "requiredEnvVars = [''PRIVATE_KEY'', ''API_KEY'']"

datatype startup = Crashed string | Exited int | Started

definition checkEnvVariables :: "process_env \<Rightarrow> startup \<times> event list" where
  "checkEnvVariables penv =
     (let missingVars = filter (\<lambda>varName. \<not> isSet penv varName) requiredEnvVars
      in if length missingVars > 0
         then (Exited 1,
               logTransaction ERROR ''Missing environment variables'' (MissingVars missingVars)
               @ [ProcessExit 1])
         else (Started, []))"

definition moduleTopLevel :: "process_env \<Rightarrow> (string \<Rightarrow> bool) \<Rightarrow> startup" where
  "moduleTopLevel penv decodes =
     (case penv ''PRIVATE_KEY'' of
        None \<Rightarrow> Crashed ''PRIVATE_KEY environment variable is not set.''
      | Some privateKey \<Rightarrow>
          if privateKey = [] then Crashed ''PRIVATE_KEY environment variable is not set.''
          else if \<not> decodes privateKey then Crashed ''the private key does not decode''
          else Started)"

definition startUp :: "process_env \<Rightarrow> (string \<Rightarrow> bool) \<Rightarrow> startup \<times> event list" where
  "startUp penv decodes =
     (case moduleTopLevel penv decodes of
        Started \<Rightarrow> checkEnvVariables penv
      | stopped \<Rightarrow> (stopped, []))"

section \<open>Sample worlds\<close>

text \<open>
  Worlds to run the program in: a price service that is down, and one that answers the
  price \<open>p\<close> for the mint with a mint account that has no freeze authority; a network
  where every call of an attempt is rejected, and one where every call goes through,
  with the balance \<open>b\<close> in the wallet, \<open>t\<close> in the token account, and the price \<open>p\<close>
  answered after a buy.
\<close>

definition priceDown :: price_env where
  "priceDown =
     \<lparr>jupiter_r = Rejects ''ECONNREFUSED'', mintKey_ok = True,
      mintAccount_r = Rejects ''ECONNREFUSED''\<rparr>"

definition priced :: "string \<Rightarrow> jsval \<Rightarrow> price_env" where
  "priced mint p =
     \<lparr>jupiter_r = Resolves (Some (Some [mint \<mapsto> p])), mintKey_ok = True,
      mintAccount_r = Resolves (Some (Some (Some AuthNull)))\<rparr>"

definition offline :: attempt_env where
  "offline =
     \<lparr>getBalance_r = Rejects ''fetch failed'',
      tokenAccount_r = Resolves ''ATA'',
      getTokenAccountBalance_r = Rejects ''fetch failed'',
      quote_r = Rejects ''fetch failed'',
      swap_r = Rejects ''fetch failed'',
      transaction_ok = True,
      addTransactions_ok = True,
      getTipAccounts_r = Rejects ''fetch failed'',
      tipAccount_ok = True,
      getLatestBlockhash_r = Rejects ''fetch failed'',
      addTipTx_ok = True,
      sendBundle_r = Rejects ''fetch failed'',
      postBuy = priceDown\<rparr>"

definition online :: "string \<Rightarrow> jsnum \<Rightarrow> token_amount \<Rightarrow> jsval \<Rightarrow> attempt_env" where
  "online mint b t p =
     \<lparr>getBalance_r = Resolves b,
      tokenAccount_r = Resolves ''ATA'',
      getTokenAccountBalance_r = Resolves t,
      quote_r = Resolves \<lparr>ok = True, body = Some ''route''\<rparr>,
      swap_r = Resolves \<lparr>ok = True, body = Some (Some ''dHg='')\<rparr>,
      transaction_ok = True,
      addTransactions_ok = True,
      getTipAccounts_r = Resolves [''tip1''],
      tipAccount_ok = True,
      getLatestBlockhash_r = Resolves ''hash'',
      addTipTx_ok = True,
      sendBundle_r = Resolves ''uuid-1'',
      postBuy = priced mint p\<rparr>"

section \<open>Reading a trace\<close>

text \<open>
  An attempt of \<^verbatim>\<open>tradeTokenWithJupiter\<close> opens with its ``Starting ... transaction''
  line and nothing else logs that line, so these lines count the attempts. \<open>pacing\<close>
  keeps the attempt starts and the timers of a trace, \<open>delays\<close> the timers' delays.
\<close>

definition startLog :: "bool \<Rightarrow> event" where
  "startLog isBuy =
     LogLine INFO (if isBuy then ''Starting buy transaction'' else ''Starting sell transaction'')
       NoDetails"

definition warnLog :: "string \<Rightarrow> event" where
  "warnLog e = LogLine WARN ''Attempt failed to send bundle to JITO'' (ErrorDetail e)"

definition giveUpLog :: "string \<Rightarrow> event" where
  "giveUpLog e =
     LogLine ERROR ''Max retries reached. Failed to send bundle to JITO'' (ErrorDetail e)"

fun is_start :: "event \<Rightarrow> bool" where
  "is_start (LogLine lvl msg det) =
     (lvl = INFO \<and> (msg = ''Starting buy transaction'' \<or> msg = ''Starting sell transaction''))"
| "is_start _ = False"

fun pacing :: "event \<Rightarrow> bool" where
  "pacing (Sleep d) = True"
| "pacing ev = is_start ev"

fun delays :: "event list \<Rightarrow> nat list" where
  "delays [] = []"
| "delays (Sleep d # evs) = d # delays evs"
| "delays (ev # evs) = delays evs"

definition attemptsMade :: "event list \<Rightarrow> nat" where
  "attemptsMade evs = length (filter is_start evs)"

definition submissions :: "event list \<Rightarrow> nat" where
  "submissions evs = length (filter (\<lambda>ev. ev = BundleSubmit) evs)"

text \<open>
  The events of \<open>k\<close> attempts in a row that throw, from the one made after \<open>r\<close>
  failures on: each attempt's own events, the warning, and the timer set to
  \<open>2 ^ retries * 1000\<close> milliseconds with \<open>retries\<close> already incremented.
\<close>

fun failedRounds ::
  "string \<Rightarrow> jsnum \<Rightarrow> bool \<Rightarrow> jsnum \<Rightarrow> (nat \<Rightarrow> attempt_env) \<Rightarrow> nat \<Rightarrow> nat \<Rightarrow> event list" where
  "failedRounds tokenAddress percentage isBuy slippage envs r 0 = []"
| "failedRounds tokenAddress percentage isBuy slippage envs r (Suc k) =
     (case attempt tokenAddress percentage isBuy slippage (envs r) of
        (res, evs) \<Rightarrow>
          evs @ [warnLog (case res of Inl e \<Rightarrow> e | Inr _ \<Rightarrow> [])] @ [Sleep (2 ^ Suc r * 1000)]
          @ failedRounds tokenAddress percentage isBuy slippage envs (Suc r) k)"

text \<open>
  Every call of \<^verbatim>\<open>getTokenInfo\<close> sends one price query, so these count the calls.
  \<open>priceAvailable\<close> is the test of \<^verbatim>\<open>waitForPriceAvailability\<close> on what a call
  gives, \<^verbatim>\<open>tokenInfo && tokenInfo.price\<close>.
\<close>

fun is_priceQuery :: "event \<Rightarrow> bool" where
  "is_priceQuery (PriceQuery mint) = True"
| "is_priceQuery ev = False"

definition fetches :: "event list \<Rightarrow> nat" where
  "fetches evs = length (filter is_priceQuery evs)"

definition priceAvailable :: "string \<Rightarrow> price_env \<Rightarrow> bool" where
  "priceAvailable tokenAddress env =
     (case fst (getTokenInfo tokenAddress env) of
        None \<Rightarrow> False
      | Some info \<Rightarrow> truthy (price info))"

text \<open>The events that only a run of \<^verbatim>\<open>tradeTokenWithJupiter\<close> leaves.\<close>

fun is_trade :: "event \<Rightarrow> bool" where
  "is_trade BalanceQuery = True"
| "is_trade (TokenBalanceQuery account) = True"
| "is_trade (QuoteRequest inputMint outputMint amount bps) = True"
| "is_trade (SwapRequest quote) = True"
| "is_trade TipAccountsQuery = True"
| "is_trade BlockhashQuery = True"
| "is_trade BundleSubmit = True"
| "is_trade ev = is_start ev"

text \<open>
  What \<^verbatim>\<open>getTokenInfo\<close> needs from the two replies: the price member of the entry
  for the mint, when the price reply has such an entry, and the freeze authority, when
  the account reply is a parsed account with its \<^verbatim>\<open>info\<close>.
\<close>

definition priceEntry :: "string \<Rightarrow> price_env \<Rightarrow> jsval option" where
  "priceEntry mint env =
     (case jupiter_r env of
        Resolves (Some (Some entries)) \<Rightarrow> entries mint
      | _ \<Rightarrow> None)"

definition mintAuthority :: "price_env \<Rightarrow> authority option" where
  "mintAuthority env =
     (case mintAccount_r env of
        Resolves (Some (Some (Some a))) \<Rightarrow> Some a
      | _ \<Rightarrow> None)"

section \<open>The sequencing of steps\<close>

text \<open>
  The arithmetic is evaluated where a concrete run needs it, by the code equations; the
  simplifier leaves products, quotients and differences of numbers alone.
\<close>

declare js_mul.simps [simp del] js_div.simps [simp del] js_sub.simps [simp del]

lemma andThen_Inl [simp]: "andThen (Inl e, evs) f = (Inl e, evs)"
  by (simp add: andThen_def)

lemma andThen_Inr [simp]: "andThen (Inr x, evs) f = (fst (f x), evs @ snd (f x))"
  by (simp add: andThen_def split: prod.splits)

lemma fst_andThen: "fst (andThen m f) = (case fst m of Inl e \<Rightarrow> Inl e | Inr x \<Rightarrow> fst (f x))"
  by (cases m) (auto simp: andThen_def split: sum.splits prod.splits)

lemma snd_andThen:
  "snd (andThen m f) = snd m @ (case fst m of Inl e \<Rightarrow> [] | Inr x \<Rightarrow> snd (f x))"
  by (cases m) (auto simp: andThen_def split: sum.splits prod.splits)

lemma filter_andThen:
  "filter P (snd (andThen m f)) =
     filter P (snd m) @ (case fst m of Inl e \<Rightarrow> [] | Inr x \<Rightarrow> filter P (snd (f x)))"
  by (simp add: snd_andThen split: sum.splits)

lemma quiet_andThen:
  "filter P (snd m) = [] \<Longrightarrow> (\<And>x. filter P (snd (f x)) = []) \<Longrightarrow>
   filter P (snd (andThen m f)) = []"
  by (simp add: filter_andThen split: sum.splits)

lemma quiet_await: "\<not> P ev \<Longrightarrow> filter P (snd (await ev r)) = []"
  by (simp add: await_def split: reply.splits)

lemma quiet_check: "filter P (snd (check b e)) = []"
  by (simp add: check_def yield_def throw_def)

lemma quiet_yield: "filter P (snd (yield x)) = []"
  by (simp add: yield_def)

lemma quiet_throw: "filter P (snd (throw e)) = []"
  by (simp add: throw_def)

section \<open>The events of getTokenInfo\<close>

lemma getTokenInfo_try_events:
  "set (snd (getTokenInfo_try mint env)) \<subseteq> {PriceQuery mint, MintAccountQuery mint}"
  unfolding getTokenInfo_try_def fetchFromJupiter_def freezeAuthority_of_def
  by (auto simp: snd_andThen await_def yield_def throw_def
           split: sum.splits reply.splits option.splits prod.splits if_splits)

lemma getTokenInfo_events:
  "set (snd (getTokenInfo mint env)) \<subseteq>
     {PriceQuery mint, MintAccountQuery mint}
     \<union> {LogLine ERROR ''Error fetching token info'' (ErrorDetail e) | e. True}"
  using getTokenInfo_try_events [of mint env]
  by (auto simp: getTokenInfo_def logTransaction_def split: prod.splits sum.splits)

lemma quiet_getTokenInfo:
  assumes "\<not> P (PriceQuery mint)" "\<not> P (MintAccountQuery mint)"
    "\<And>e. \<not> P (LogLine ERROR ''Error fetching token info'' (ErrorDetail e))"
  shows "filter P (snd (getTokenInfo mint env)) = []"
  using getTokenInfo_events [of mint env] assms
  by (auto simp: filter_empty_conv)

section \<open>The events of one attempt\<close>

lemma pacing_getTokenInfo [simp]: "filter pacing (snd (getTokenInfo mint env)) = []"
  by (rule quiet_getTokenInfo) simp_all

lemma pacing_swapAndSend:
  "filter pacing (snd (swapAndSend tokenAddress isBuy slippage env amount inputMint outputMint)) = []"
  unfolding swapAndSend_def
  apply (intro quiet_andThen quiet_await quiet_check)
  apply (auto simp: yield_def throw_def emit_def logTransaction_def quiet_check
       split: option.splits list.splits prod.splits)
  subgoal for a b c using pacing_getTokenInfo [of tokenAddress "postBuy env"] by simp
  done

lemma pacing_attempt:
  "filter pacing (snd (attempt tokenAddress percentage isBuy slippage env)) = [startLog isBuy]"
  unfolding attempt_def
  by (simp add: filter_andThen emit_def logTransaction_def startLog_def await_def
        yield_def throw_def Let_def pacing_swapAndSend
      split: sum.splits reply.splits)


section \<open>The retry loop\<close>

lemma tradeLoop_fail_step:
  assumes "int r < maxRetries" "int (Suc r) < maxRetries"
    and "attempt tokenAddress percentage isBuy slippage (envs r) = (Inl e, evs)"
  shows "tradeLoop tokenAddress percentage isBuy slippage maxRetries envs r =
    (fst (tradeLoop tokenAddress percentage isBuy slippage maxRetries envs (Suc r)),
     evs @ [warnLog e] @ [Sleep (2 ^ Suc r * 1000)]
       @ snd (tradeLoop tokenAddress percentage isBuy slippage maxRetries envs (Suc r)))"
  apply (subst tradeLoop.simps)
  using assms
  apply (simp add: Let_def logTransaction_def warnLog_def split: prod.splits)
  done

lemma tradeLoop_fail_last:
  assumes "int r < maxRetries" "\<not> int (Suc r) < maxRetries"
    and "attempt tokenAddress percentage isBuy slippage (envs r) = (Inl e, evs)"
  shows "tradeLoop tokenAddress percentage isBuy slippage maxRetries envs r =
    (TradeFalse, evs @ [warnLog e, giveUpLog e])"
  apply (subst tradeLoop.simps)
  using assms
  apply (simp add: Let_def logTransaction_def warnLog_def giveUpLog_def)
  done

lemma tradeLoop_return:
  assumes "int r < maxRetries"
    and "attempt tokenAddress percentage isBuy slippage (envs r) = (Inr res, evs)"
  shows "tradeLoop tokenAddress percentage isBuy slippage maxRetries envs r = (res, evs)"
  apply (subst tradeLoop.simps)
  using assms
  apply simp
  done


lemma tradeLoop_shape:
  assumes "int r < maxRetries"
  shows "\<exists>k. int (r + k) < maxRetries
      \<and> (\<forall>j<k. isl (fst (attempt tokenAddress percentage isBuy slippage (envs (r + j)))))
      \<and> (case attempt tokenAddress percentage isBuy slippage (envs (r + k)) of
           (Inr res, evs) \<Rightarrow>
             tradeLoop tokenAddress percentage isBuy slippage maxRetries envs r =
               (res, failedRounds tokenAddress percentage isBuy slippage envs r k @ evs)
         | (Inl e, evs) \<Rightarrow>
             int (Suc (r + k)) = maxRetries \<and>
             tradeLoop tokenAddress percentage isBuy slippage maxRetries envs r =
               (TradeFalse, failedRounds tokenAddress percentage isBuy slippage envs r k @ evs
                              @ [warnLog e, giveUpLog e]))"
  using assms
proof (induction "nat (maxRetries - int r)" arbitrary: r rule: less_induct)
  case less
  let ?A = "\<lambda>i. attempt tokenAddress percentage isBuy slippage (envs i)"
  let ?L = "tradeLoop tokenAddress percentage isBuy slippage maxRetries envs"
  let ?F = "failedRounds tokenAddress percentage isBuy slippage envs"
  obtain res evs where A: "?A r = (res, evs)"
    by (cases "?A r")
  show ?case
  proof (cases res)
    case (Inr v)
    with A less.prems have "?L r = (v, evs)"
      by (simp add: tradeLoop_return)
    with A Inr less.prems show ?thesis
      by (intro exI [of _ 0]) simp
  next
    case (Inl e)
    show ?thesis
    proof (cases "int (Suc r) < maxRetries")
      case False
      with A Inl less.prems have "?L r = (TradeFalse, evs @ [warnLog e, giveUpLog e])"
        by (simp add: tradeLoop_fail_last)
      moreover from False less.prems have "int (Suc r) = maxRetries" by simp
      ultimately show ?thesis
        using A Inl less.prems by (intro exI [of _ 0]) simp
    next
      case True
      have "nat (maxRetries - int (Suc r)) < nat (maxRetries - int r)"
        using True by simp
      from less.hyps [OF this True] obtain k where
        K: "int (Suc r + k) < maxRetries
          \<and> (\<forall>j<k. isl (fst (?A (Suc r + j))))
          \<and> (case ?A (Suc r + k) of
              (Inr res, evs) \<Rightarrow> ?L (Suc r) = (res, ?F (Suc r) k @ evs)
            | (Inl e, evs) \<Rightarrow>
                int (Suc (Suc r + k)) = maxRetries \<and>
                ?L (Suc r) = (TradeFalse, ?F (Suc r) k @ evs @ [warnLog e, giveUpLog e]))" ..
      from K have k1: "int (Suc r + k) < maxRetries" by (rule conjunct1)
      from K have k2: "\<forall>j<k. isl (fst (?A (Suc r + j)))" by (rule conjunct2 [THEN conjunct1])
      from K have k3: "(case ?A (Suc r + k) of
              (Inr res, evs) \<Rightarrow> ?L (Suc r) = (res, ?F (Suc r) k @ evs)
            | (Inl e, evs) \<Rightarrow>
                int (Suc (Suc r + k)) = maxRetries \<and>
                ?L (Suc r) = (TradeFalse, ?F (Suc r) k @ evs @ [warnLog e, giveUpLog e]))"
        by (rule conjunct2 [THEN conjunct2])
      have fails: "\<forall>j<Suc k. isl (fst (?A (r + j)))"
      proof (intro allI impI)
        fix j assume "j < Suc k"
        show "isl (fst (?A (r + j)))"
        proof (cases j)
          case 0
          with A Inl show ?thesis by simp
        next
          case (Suc i)
          with \<open>j < Suc k\<close> k2 show ?thesis by simp
        qed
      qed
      have step: "?L r = (fst (?L (Suc r)), evs @ [warnLog e] @ [Sleep (2 ^ Suc r * 1000)] @ snd (?L (Suc r)))"
        using A Inl by (intro tradeLoop_fail_step [OF less.prems True]) simp
      have F: "?F r (Suc k) = evs @ [warnLog e] @ [Sleep (2 ^ Suc r * 1000)] @ ?F (Suc r) k"
        using A Inl by simp
      obtain res' evs' where A': "?A (Suc r + k) = (res', evs')"
        by (cases "?A (Suc r + k)")
      have "case ?A (r + Suc k) of
              (Inr res, evs) \<Rightarrow> ?L r = (res, ?F r (Suc k) @ evs)
            | (Inl e, evs) \<Rightarrow>
                int (Suc (r + Suc k)) = maxRetries \<and>
                ?L r = (TradeFalse, ?F r (Suc k) @ evs @ [warnLog e, giveUpLog e])"
      proof (cases res')
        case (Inr v)
        with k3 A' have "?L (Suc r) = (v, ?F (Suc r) k @ evs')" by simp
        with step F have "?L r = (v, ?F r (Suc k) @ evs')" by simp
        with A' Inr show ?thesis by simp
      next
        case (Inl e')
        with k3 A' have *: "int (Suc (Suc r + k)) = maxRetries"
          "?L (Suc r) = (TradeFalse, ?F (Suc r) k @ evs' @ [warnLog e', giveUpLog e'])" by simp_all
        with step F have "?L r = (TradeFalse, ?F r (Suc k) @ evs' @ [warnLog e', giveUpLog e'])" by simp
        with A' Inl * show ?thesis by simp
      qed
      with k1 fails show ?thesis
        by (intro exI [of _ "Suc k"]) simp
    qed
  qed
qed

lemma count_andThen_quiet:
  "filter P (snd m) = [] \<Longrightarrow> (\<And>x. length (filter P (snd (f x))) \<le> n) \<Longrightarrow>
   length (filter P (snd (andThen m f))) \<le> n"
  by (simp add: filter_andThen split: sum.splits)

lemma count_andThen_then_quiet:
  "length (filter P (snd m)) \<le> n \<Longrightarrow> (\<And>x. filter P (snd (f x)) = []) \<Longrightarrow>
   length (filter P (snd (andThen m f))) \<le> n"
  by (simp add: filter_andThen split: sum.splits)

lemma submissions_swapAndSend:
  "length (filter (\<lambda>ev. ev = BundleSubmit)
     (snd (swapAndSend tokenAddress isBuy slippage env amount inputMint outputMint))) \<le> Suc 0"
proof -
  have q: "filter (\<lambda>ev. ev = BundleSubmit) (snd (getTokenInfo tokenAddress (postBuy env))) = []"
    by (rule quiet_getTokenInfo) simp_all
  show ?thesis
    unfolding swapAndSend_def
    apply ((rule count_andThen_quiet,
        (simp add: quiet_await quiet_check quiet_yield quiet_throw emit_def logTransaction_def
           split: option.splits list.splits; fail))+)
    apply (rule count_andThen_then_quiet)
     apply (simp add: await_def split: reply.splits)
    using q
    apply (auto simp: filter_andThen emit_def logTransaction_def yield_def throw_def
        split: prod.splits)
    done
qed

lemma submissions_attempt:
  "submissions (snd (attempt tokenAddress percentage isBuy slippage env)) \<le> Suc 0"
  unfolding attempt_def submissions_def
  by (simp add: filter_andThen emit_def logTransaction_def await_def
        yield_def throw_def Let_def submissions_swapAndSend
      split: sum.splits reply.splits)

lemma is_start_pacing: "is_start ev \<Longrightarrow> pacing ev"
  by (cases ev) simp_all

lemma starts_of_pacing: "filter is_start (filter pacing evs) = filter is_start evs"
  by (induction evs) (auto simp: is_start_pacing)

lemma delays_of_pacing: "delays (filter pacing evs) = delays evs"
  by (induction evs rule: delays.induct) simp_all

lemma delays_append [simp]: "delays (xs @ ys) = delays xs @ delays ys"
  by (induction xs rule: delays.induct) simp_all

lemma attemptsMade_append [simp]: "attemptsMade (xs @ ys) = attemptsMade xs + attemptsMade ys"
  by (simp add: attemptsMade_def)

lemma submissions_append [simp]: "submissions (xs @ ys) = submissions xs + submissions ys"
  by (simp add: submissions_def)

lemma attemptsMade_Cons [simp]:
  "attemptsMade (ev # evs) = (if is_start ev then 1 else 0) + attemptsMade evs"
  by (simp add: attemptsMade_def)

lemma submissions_Cons [simp]:
  "submissions (ev # evs) = (if ev = BundleSubmit then 1 else 0) + submissions evs"
  by (simp add: submissions_def)

lemma attemptsMade_Nil [simp]: "attemptsMade [] = 0"
  by (simp add: attemptsMade_def)

lemma submissions_Nil [simp]: "submissions [] = 0"
  by (simp add: submissions_def)

lemma attemptsMade_attempt [simp]:
  "attemptsMade (snd (attempt tokenAddress percentage isBuy slippage env)) = 1"
proof -
  have "filter is_start (snd (attempt tokenAddress percentage isBuy slippage env))
      = filter is_start [startLog isBuy]"
    using starts_of_pacing [of "snd (attempt tokenAddress percentage isBuy slippage env)"]
    by (simp add: pacing_attempt)
  then show ?thesis by (simp add: attemptsMade_def startLog_def del: attemptsMade_Cons)
qed

lemma delays_attempt [simp]:
  "delays (snd (attempt tokenAddress percentage isBuy slippage env)) = []"
  using delays_of_pacing [of "snd (attempt tokenAddress percentage isBuy slippage env)"]
  by (simp add: pacing_attempt startLog_def)

lemma failedRounds_Suc:
  "failedRounds tokenAddress percentage isBuy slippage envs r (Suc k) =
     snd (attempt tokenAddress percentage isBuy slippage (envs r))
     @ [warnLog (case fst (attempt tokenAddress percentage isBuy slippage (envs r)) of
                   Inl e \<Rightarrow> e | Inr _ \<Rightarrow> [])]
     @ [Sleep (2 ^ Suc r * 1000)]
     @ failedRounds tokenAddress percentage isBuy slippage envs (Suc r) k"
  by (simp add: case_prod_beta)

lemma upt_shift: "[Suc r..<Suc (r + Suc k)] = Suc r # [Suc (Suc r)..<Suc (Suc r + k)]"
  by (simp add: upt_conv_Cons del: upt_Suc)

lemma pacing_failedRounds:
  "filter pacing (failedRounds tokenAddress percentage isBuy slippage envs r k) =
     concat (map (\<lambda>i. [startLog isBuy, Sleep (2 ^ i * 1000)]) [Suc r..<Suc (r + k)])"
proof (induction k arbitrary: r)
  case 0
  then show ?case by simp
next
  case (Suc k)
  show ?case
    unfolding failedRounds_Suc upt_shift
    by (simp add: pacing_attempt warnLog_def Suc [of "Suc r"] del: upt_Suc failedRounds.simps)
qed

lemma attemptsMade_failedRounds [simp]:
  "attemptsMade (failedRounds tokenAddress percentage isBuy slippage envs r k) = k"
proof (induction k arbitrary: r)
  case 0
  then show ?case by simp
next
  case (Suc k)
  show ?case
    unfolding failedRounds_Suc
    by (simp add: Suc [of "Suc r"] warnLog_def del: failedRounds.simps)
qed

lemma submissions_failedRounds:
  "submissions (failedRounds tokenAddress percentage isBuy slippage envs r k) \<le> k"
proof (induction k arbitrary: r)
  case 0
  then show ?case by simp
next
  case (Suc k)
  show ?case
    unfolding failedRounds_Suc
    using Suc [of "Suc r"] submissions_attempt [of tokenAddress percentage isBuy slippage "envs r"]
    by (simp add: warnLog_def del: failedRounds.simps)
qed

lemma delays_failedRounds:
  "delays (failedRounds tokenAddress percentage isBuy slippage envs r k) =
     map (\<lambda>i. 2 ^ i * 1000) [Suc r..<Suc (r + k)]"
proof -
  have "delays (concat (map (\<lambda>i. [startLog isBuy, Sleep (2 ^ i * 1000)]) is)) =
        map (\<lambda>i. 2 ^ i * 1000) is" for "is"
    by (induction "is") (simp_all add: startLog_def)
  then show ?thesis
    using delays_of_pacing [of "failedRounds tokenAddress percentage isBuy slippage envs r k"]
    by (simp add: pacing_failedRounds)
qed

lemma backoff_increasing: "sorted_wrt (<) (map (\<lambda>i. 2 ^ i * (1000::nat)) [a..<b])"
  by (simp add: sorted_wrt_map sorted_wrt_iff_nth_less)

lemma trade_shape:
  assumes "1 \<le> maxRetries"
  shows "\<exists>k. int k < maxRetries
      \<and> (\<forall>j<k. isl (fst (attempt tokenAddress percentage isBuy slippage (envs j))))
      \<and> (case attempt tokenAddress percentage isBuy slippage (envs k) of
           (Inr res, evs) \<Rightarrow>
             tradeTokenWithJupiter tokenAddress percentage isBuy slippage maxRetries envs =
               (res, failedRounds tokenAddress percentage isBuy slippage envs 0 k @ evs)
         | (Inl e, evs) \<Rightarrow>
             int (Suc k) = maxRetries \<and>
             tradeTokenWithJupiter tokenAddress percentage isBuy slippage maxRetries envs =
               (TradeFalse, failedRounds tokenAddress percentage isBuy slippage envs 0 k @ evs
                              @ [warnLog e, giveUpLog e]))"
proof -
  from assms have "int 0 < maxRetries" by simp
  from tradeLoop_shape [OF this, of tokenAddress percentage isBuy slippage envs]
  show ?thesis by (simp only: tradeTokenWithJupiter_def add_0_left)
qed

lemma snd_andThen_await:
  "snd (andThen (await ev r) f) = ev # (case r of Rejects e \<Rightarrow> [] | Resolves x \<Rightarrow> snd (f x))"
  by (simp add: await_def split: reply.splits)

lemma swapAndSend_opens_with_quote:
  "\<exists>rest. snd (swapAndSend tokenAddress isBuy slippage env amount inputMint outputMint) =
     QuoteRequest inputMint outputMint amount (js_mul slippage (Fin 100)) # rest"
  unfolding swapAndSend_def by (simp only: snd_andThen_await) blast

section \<open>An accepted bundle\<close>

lemma reach_andThen:
  assumes "filter (\<lambda>ev. ev = BundleSubmit) (snd m) = []"
    and "\<And>x. BundleSubmit \<in> set (snd (f x)) \<longrightarrow> (\<exists>pre. f x = (Inr R, pre @ suffix))"
  shows "BundleSubmit \<in> set (snd (andThen m f)) \<longrightarrow> (\<exists>pre. andThen m f = (Inr R, pre @ suffix))"
proof
  assume in_run: "BundleSubmit \<in> set (snd (andThen m f))"
  from assms(1) have quiet: "BundleSubmit \<notin> set (snd m)"
    by (auto simp: filter_empty_conv)
  obtain res evs where m: "m = (res, evs)" by (cases m)
  show "\<exists>pre. andThen m f = (Inr R, pre @ suffix)"
  proof (cases res)
    case (Inl e)
    with m in_run quiet show ?thesis by simp
  next
    case (Inr x)
    with m in_run quiet have "BundleSubmit \<in> set (snd (f x))" by simp
    with assms(2) obtain pre where "f x = (Inr R, pre @ suffix)" by blast
    with m Inr have "andThen m f = (Inr R, (evs @ pre) @ suffix)" by simp
    then show ?thesis by blast
  qed
qed

lemma swapAndSend_accepted:
  assumes "sendBundle_r env = Resolves uuid" and "uuid \<noteq> []"
  shows "BundleSubmit \<in> set (snd (swapAndSend tokenAddress True slippage env amount inputMint outputMint))
    \<longrightarrow> (\<exists>pre. swapAndSend tokenAddress True slippage env amount inputMint outputMint =
          (Inr (TradeSuccess (case fst (getTokenInfo tokenAddress (postBuy env)) of
                                Some info \<Rightarrow> price info | None \<Rightarrow> Null)),
           pre @ ([BundleSubmit, LogLine INFO ''Bundle sent successfully'' NoDetails,
                   LogLine INFO ''waiting confirmation.'' NoDetails]
                  @ snd (getTokenInfo tokenAddress (postBuy env))
                  @ [LogLine INFO ''Initial Price. Initiating sell...'' NoDetails])))"
  unfolding swapAndSend_def
  apply ((rule reach_andThen,
        (simp add: quiet_await quiet_check quiet_yield quiet_throw emit_def logTransaction_def
           split: option.splits list.splits; fail))+)
  using assms
  apply (simp add: await_def emit_def logTransaction_def Let_def split: prod.splits)
  done

lemma attempt_accepted:
  assumes "sendBundle_r env = Resolves uuid" and "uuid \<noteq> []"
  shows "BundleSubmit \<in> set (snd (attempt tokenAddress percentage True slippage env))
    \<longrightarrow> (\<exists>pre. attempt tokenAddress percentage True slippage env =
          (Inr (TradeSuccess (case fst (getTokenInfo tokenAddress (postBuy env)) of
                                Some info \<Rightarrow> price info | None \<Rightarrow> Null)),
           pre @ ([BundleSubmit, LogLine INFO ''Bundle sent successfully'' NoDetails,
                   LogLine INFO ''waiting confirmation.'' NoDetails]
                  @ snd (getTokenInfo tokenAddress (postBuy env))
                  @ [LogLine INFO ''Initial Price. Initiating sell...'' NoDetails])))"
  unfolding attempt_def
  apply (rule reach_andThen, simp add: emit_def logTransaction_def)
  apply (simp only: if_True)
  apply (rule reach_andThen, simp add: quiet_await)
  apply (simp add: Let_def emit_def logTransaction_def yield_def
      swapAndSend_accepted [OF assms, simplified])
  done

lemma tradeLoop_after_failures:
  assumes "int (r + k) < maxRetries"
    and "\<forall>j<k. isl (fst (attempt tokenAddress percentage isBuy slippage (envs (r + j))))"
    and "attempt tokenAddress percentage isBuy slippage (envs (r + k)) = (Inr res, evs)"
  shows "tradeLoop tokenAddress percentage isBuy slippage maxRetries envs r =
           (res, failedRounds tokenAddress percentage isBuy slippage envs r k @ evs)"
  using assms
proof (induction k arbitrary: r)
  case 0
  then show ?case by (simp add: tradeLoop_return)
next
  case (Suc k)
  let ?A = "\<lambda>i. attempt tokenAddress percentage isBuy slippage (envs i)"
  from Suc.prems(2) have "isl (fst (?A (r + 0)))" by blast
  then obtain e evs0 where A: "?A r = (Inl e, evs0)"
    by (cases "?A r") (auto simp: isl_def)
  from Suc.prems(1) have lt: "int r < maxRetries" "int (Suc r) < maxRetries" by simp_all
  from Suc.prems(1) have p1: "int (Suc r + k) < maxRetries" by simp
  have p2: "\<forall>j<k. isl (fst (?A (Suc r + j)))"
  proof (intro allI impI)
    fix j assume "j < k"
    then have "Suc j < Suc k" by simp
    with Suc.prems(2) have "isl (fst (?A (r + Suc j)))" by blast
    then show "isl (fst (?A (Suc r + j)))" by simp
  qed
  from Suc.prems(3) have p3: "?A (Suc r + k) = (Inr res, evs)" by simp
  note step = tradeLoop_fail_step [OF lt, of tokenAddress percentage isBuy slippage envs e evs0, OF A]
  from Suc.IH [OF p1 p2 p3] step A
  show ?case by simp
qed


section \<open>Runs in the sample worlds\<close>

lemma attempt_offline_buy:
  "attempt tokenAddress percentage True slippage offline =
     (Inl ''fetch failed'', [startLog True, BalanceQuery])"
  by (simp add: attempt_def offline_def emit_def logTransaction_def await_def startLog_def)

lemma gas_fee_value: "SOLANA_GAS_FEE_PRICE = Fin 5000"
  by code_simp

lemma tip_value: "JITO_TIP_AMOUNT = Fin 10000"
  by code_simp

lemma buyAmount_one_sol_six_percent: "buyAmount (Fin 1000000000) (Fin 6) = Fin 59985000"
  by code_simp

lemma buyAmount_tenth_sol_29_percent: "buyAmount (Fin 100000000) (Fin 29) = Fin 28984999"
  by code_simp

lemma slippage_bps: "js_mul (Fin 5) (Fin 100) = Fin 500"
  by code_simp

lemma sellAmount_29_percent:
  "sellAmount \<lparr>uiAmount = Number (Fin 100000000), decimals = 0\<rparr> (Fin 29) = Fin 28999999"
  by code_simp

lemma sellAmount_all:
  "sellAmount \<lparr>uiAmount = Number (Fin (5 / 2)), decimals = 6\<rparr> (Fin 100) = Fin 2500000"
  by code_simp

lemma sellAmount_null:
  "sellAmount \<lparr>uiAmount = Null, decimals = 6\<rparr> (Fin 100) = Fin 0"
  by code_simp

lemma getTokenInfo_priced:
  "getTokenInfo mint (priced mint p) =
     (Some \<lparr>price = p, source = ''jupiter'', isFreezable = False\<rparr>,
      [PriceQuery mint, MintAccountQuery mint])"
  by (simp add: getTokenInfo_def getTokenInfo_try_def fetchFromJupiter_def freezeAuthority_of_def
        priced_def await_def yield_def)

lemma getTokenInfo_priceDown:
  "getTokenInfo mint priceDown =
     (None, [PriceQuery mint,
             LogLine ERROR ''Error fetching token info'' (ErrorDetail ''ECONNREFUSED'')])"
  by (simp add: getTokenInfo_def getTokenInfo_try_def fetchFromJupiter_def priceDown_def
        await_def logTransaction_def)

lemma attempt_online_buy:
  assumes "\<not> js_lt (buyAmount b percentage) (Fin 0)"
  shows "attempt mint percentage True slippage (online mint b t p) =
     (Inr (TradeSuccess p),
      [startLog True, BalanceQuery,
       QuoteRequest solAddress mint (buyAmount b percentage) (js_mul slippage (Fin 100)),
       SwapRequest ''route'', TipAccountsQuery, BlockhashQuery,
       LogLine INFO ''Sending bundle...'' NoDetails, BundleSubmit,
       LogLine INFO ''Bundle sent successfully'' NoDetails,
       LogLine INFO ''waiting confirmation.'' NoDetails,
       PriceQuery mint, MintAccountQuery mint,
       LogLine INFO ''Initial Price. Initiating sell...'' NoDetails])"
  using assms
  by (simp add: attempt_def swapAndSend_def online_def emit_def logTransaction_def await_def
        check_def yield_def startLog_def Let_def getTokenInfo_priced)

lemma attempt_online_sell:
  "attempt mint percentage False slippage (online mint b t p) =
     (Inr (TradeSuccess Null),
      [startLog False, TokenBalanceQuery ''ATA'',
       QuoteRequest mint solAddress (sellAmount t percentage) (js_mul slippage (Fin 100)),
       SwapRequest ''route'', TipAccountsQuery, BlockhashQuery,
       LogLine INFO ''Sending bundle...'' NoDetails, BundleSubmit,
       LogLine INFO ''Bundle sent successfully'' NoDetails,
       LogLine INFO ''waiting confirmation.'' NoDetails])"
  by (simp add: attempt_def swapAndSend_def online_def emit_def logTransaction_def await_def
        check_def yield_def startLog_def Let_def)

section \<open>Retries and backoff\<close>

text \<open>
  C3. With \<open>maxRetries \<ge> 1\<close>, a call of \<^verbatim>\<open>tradeTokenWithJupiter\<close> makes \<open>n\<close>
  attempts, \<open>1 \<le> n \<le> maxRetries\<close>, and submits at most \<open>n\<close> bundles. Its attempt
  starts and timers alternate: every attempt but the last is followed by a timer, the
  \<open>i\<close>-th by one of \<open>2^i\<close> seconds (\<open>2^i * 1000\<close> milliseconds, \<open>i = 1, 2, ...\<close>),
  so the delays increase strictly, and no timer follows the last attempt. When each of
  the \<open>maxRetries\<close> attempts throws, the call returns \<^verbatim>\<open>false\<close> after exactly
  \<open>maxRetries\<close> attempts.
\<close>

theorem retries_bounded_backoff_doubling:
  assumes "1 \<le> maxRetries"
  shows "let run = tradeTokenWithJupiter tokenAddress percentage isBuy slippage maxRetries envs;
             n = attemptsMade (snd run)
         in 1 \<le> n \<and> int n \<le> maxRetries
            \<and> submissions (snd run) \<le> n
            \<and> filter pacing (snd run) =
                concat (map (\<lambda>i. [startLog isBuy, Sleep (2 ^ i * 1000)]) [1..<n]) @ [startLog isBuy]
            \<and> delays (snd run) = map (\<lambda>i. 2 ^ i * 1000) [1..<n]
            \<and> sorted_wrt (<) (delays (snd run))
            \<and> ((\<forall>k. int k < maxRetries \<longrightarrow>
                    isl (fst (attempt tokenAddress percentage isBuy slippage (envs k))))
                 \<longrightarrow> fst run = TradeFalse \<and> int n = maxRetries)"
proof -
  let ?A = "\<lambda>i. attempt tokenAddress percentage isBuy slippage (envs i)"
  let ?F = "failedRounds tokenAddress percentage isBuy slippage envs 0"
  let ?run = "tradeTokenWithJupiter tokenAddress percentage isBuy slippage maxRetries envs"
  from trade_shape [OF assms, of tokenAddress percentage isBuy slippage envs] obtain k where
    K: "int k < maxRetries
      \<and> (\<forall>j<k. isl (fst (?A j)))
      \<and> (case ?A k of
           (Inr res, evs) \<Rightarrow> ?run = (res, ?F k @ evs)
         | (Inl e, evs) \<Rightarrow>
             int (Suc k) = maxRetries \<and> ?run = (TradeFalse, ?F k @ evs @ [warnLog e, giveUpLog e]))" ..
  from K have k1: "int k < maxRetries" by (rule conjunct1)
  from K have k3: "case ?A k of
           (Inr res, evs) \<Rightarrow> ?run = (res, ?F k @ evs)
         | (Inl e, evs) \<Rightarrow>
             int (Suc k) = maxRetries \<and> ?run = (TradeFalse, ?F k @ evs @ [warnLog e, giveUpLog e])"
    by (rule conjunct2 [THEN conjunct2])
  obtain res evs where A: "?A k = (res, evs)" by (cases "?A k")
  have evs: "attemptsMade evs = 1" "delays evs = []" "filter pacing evs = [startLog isBuy]"
    "submissions evs \<le> Suc 0"
    using attemptsMade_attempt [of tokenAddress percentage isBuy slippage "envs k"]
      delays_attempt [of tokenAddress percentage isBuy slippage "envs k"]
      pacing_attempt [of tokenAddress percentage isBuy slippage "envs k"]
      submissions_attempt [of tokenAddress percentage isBuy slippage "envs k"] A
    by simp_all
  obtain tl where T: "snd ?run = ?F k @ evs @ tl" and
    tl: "tl = [] \<or> (\<exists>e. tl = [warnLog e, giveUpLog e])" and
    last: "isl res \<longrightarrow> fst ?run = TradeFalse \<and> int (Suc k) = maxRetries"
  proof (cases res)
    case (Inl e)
    with k3 A have "snd ?run = ?F k @ evs @ [warnLog e, giveUpLog e]"
      "fst ?run = TradeFalse" "int (Suc k) = maxRetries" by simp_all
    with Inl that [of "[warnLog e, giveUpLog e]"] show ?thesis by blast
  next
    case (Inr v)
    with k3 A have "snd ?run = ?F k @ evs @ []" by simp
    with Inr that [of "[]"] show ?thesis by simp
  qed
  have tl0: "attemptsMade tl = 0" "delays tl = []" "filter pacing tl = []" "submissions tl = 0"
    using tl by (auto simp: warnLog_def giveUpLog_def)
  have n: "attemptsMade (snd ?run) = Suc k"
    using T evs tl0 by simp
  have sub: "submissions (snd ?run) \<le> Suc k"
    using T evs tl0 submissions_failedRounds [of tokenAddress percentage isBuy slippage envs 0 k]
    by simp
  have pac: "filter pacing (snd ?run) =
      concat (map (\<lambda>i. [startLog isBuy, Sleep (2 ^ i * 1000)]) [1..<Suc k]) @ [startLog isBuy]"
    using T evs tl0 pacing_failedRounds [of tokenAddress percentage isBuy slippage envs 0 k]
    by (simp del: upt_Suc)
  have del: "delays (snd ?run) = map (\<lambda>i. 2 ^ i * 1000) [1..<Suc k]"
    using T evs tl0 delays_failedRounds [of tokenAddress percentage isBuy slippage envs 0 k]
    by (simp del: upt_Suc)
  have inc: "sorted_wrt (<) (delays (snd ?run))"
    unfolding del by (rule backoff_increasing)
  have ex: "fst ?run = TradeFalse \<and> int (Suc k) = maxRetries"
    if "\<forall>j. int j < maxRetries \<longrightarrow> isl (fst (?A j))"
  proof -
    from that k1 have "isl (fst (?A k))" by blast
    with A last show ?thesis by simp
  qed
  from k1 have "int (Suc k) \<le> maxRetries" by simp
  with n sub pac del inc ex show ?thesis
    unfolding Let_def by (simp del: upt_Suc)
qed

theorem retries_bounded_backoff_doubling_witness:
  "fst (tradeTokenWithJupiter ''T'' (Fin 6) True (Fin 5) 3 (\<lambda>k. offline)) = TradeFalse
   \<and> attemptsMade (snd (tradeTokenWithJupiter ''T'' (Fin 6) True (Fin 5) 3 (\<lambda>k. offline))) = 3
   \<and> submissions (snd (tradeTokenWithJupiter ''T'' (Fin 6) True (Fin 5) 3 (\<lambda>k. offline))) \<le> 3
   \<and> delays (snd (tradeTokenWithJupiter ''T'' (Fin 6) True (Fin 5) 3 (\<lambda>k. offline))) = [2000, 4000]"
proof -
  have fails: "\<forall>k. int k < 3 \<longrightarrow>
      isl (fst (attempt ''T'' (Fin 6) True (Fin 5) ((\<lambda>k. offline) k)))"
    by (simp add: attempt_offline_buy)
  have "(1::int) \<le> 3" by simp
  from retries_bounded_backoff_doubling [OF this, of "''T''" "Fin 6" True "Fin 5" "\<lambda>k. offline"] fails
  have "fst (tradeTokenWithJupiter ''T'' (Fin 6) True (Fin 5) 3 (\<lambda>k. offline)) = TradeFalse
   \<and> attemptsMade (snd (tradeTokenWithJupiter ''T'' (Fin 6) True (Fin 5) 3 (\<lambda>k. offline))) = 3
   \<and> submissions (snd (tradeTokenWithJupiter ''T'' (Fin 6) True (Fin 5) 3 (\<lambda>k. offline))) \<le> 3
   \<and> delays (snd (tradeTokenWithJupiter ''T'' (Fin 6) True (Fin 5) 3 (\<lambda>k. offline))) =
       map (\<lambda>i. 2 ^ i * 1000) [1..<3]"
    by (simp add: Let_def del: upt_Suc)
  moreover have "map (\<lambda>i. 2 ^ i * 1000) [1..<3] = [2000, 4000::nat]"
    by code_simp
  ultimately show ?thesis by simp
qed

section \<open>No attempt at all\<close>

text \<open>
  C10. With \<open>maxRetries \<le> 0\<close> the loop body never runs: the call does nothing and
  gives back \<^verbatim>\<open>undefined\<close>, which is neither \<^verbatim>\<open>false\<close> nor a result object.
\<close>

theorem no_retries_returns_undefined:
  assumes "maxRetries \<le> 0"
  shows "tradeTokenWithJupiter tokenAddress percentage isBuy slippage maxRetries envs =
           (TradeUndefined, [])
         \<and> fst (tradeTokenWithJupiter tokenAddress percentage isBuy slippage maxRetries envs)
             \<noteq> TradeFalse
         \<and> (\<forall>p. fst (tradeTokenWithJupiter tokenAddress percentage isBuy slippage maxRetries envs)
                \<noteq> TradeSuccess p)"
proof -
  from assms have "\<not> int 0 < maxRetries" by simp
  then have "tradeLoop tokenAddress percentage isBuy slippage maxRetries envs 0 =
      (TradeUndefined, [])"
    by (subst tradeLoop.simps) simp
  then show ?thesis by (simp add: tradeTokenWithJupiter_def)
qed

theorem no_retries_returns_undefined_witness:
  "tradeTokenWithJupiter ''T'' (Fin 6) True (Fin 5) 0 (\<lambda>k. offline) = (TradeUndefined, [])
   \<and> tradeTokenWithJupiter ''T'' (Fin 100) False (Fin 5) (- 1) (\<lambda>k. offline) = (TradeUndefined, [])"
proof -
  have "(0::int) \<le> 0" and "(- 1::int) \<le> 0" by simp_all
  from no_retries_returns_undefined [OF this(1)] no_retries_returns_undefined [OF this(2)]
  show ?thesis by blast
qed

section \<open>Monitoring without an initial price\<close>

text \<open>
  C6. Called with \<^verbatim>\<open>initialPrice = null\<close>, \<^verbatim>\<open>monitorAndSell\<close> logs one error line and
  returns: no price is fetched, no sell is attempted, nothing goes over the network,
  whatever the world would have answered.
\<close>

theorem monitor_null_price_no_network:
  "monitorAndSell tokenAddress Null envs sell =
     (Returns (),
      [LogLine ERROR ''Failed to retrieve initial price, cannot monitor price changes.''
         NoDetails])
   \<and> filter is_network (snd (monitorAndSell tokenAddress Null envs sell)) = []"
  by (simp add: monitorAndSell_def logTransaction_def)

section \<open>The price after a buy\<close>

text \<open>
  C5. Take a buy whose attempt number \<open>k + 1\<close> gets as far as submitting its bundle
  and hears a non-empty identifier back, the \<open>k\<close> attempts before it having thrown.
  Then the events after the submission are the two log lines, the events of one call of
  \<^verbatim>\<open>getTokenInfo\<close> and the last log line, and the call returns
  \<^verbatim>\<open>{ success: true, initialPrice }\<close> with the price that call read, or \<^verbatim>\<open>null\<close> when
  it gave \<^verbatim>\<open>null\<close>; no attempt follows: \<open>k + 1\<close> attempts were made in all.
\<close>

theorem accepted_buy_returns_price:
  assumes "BundleSubmit \<in> set (snd (attempt tokenAddress percentage True slippage (envs k)))"
    and "sendBundle_r (envs k) = Resolves uuid" and "uuid \<noteq> []"
    and "int k < maxRetries"
    and "\<forall>j<k. isl (fst (attempt tokenAddress percentage True slippage (envs j)))"
  shows "let requery = getTokenInfo tokenAddress (postBuy (envs k));
             run = tradeTokenWithJupiter tokenAddress percentage True slippage maxRetries envs
         in fst run = TradeSuccess (case fst requery of Some info \<Rightarrow> price info | None \<Rightarrow> Null)
            \<and> (fst requery = None \<longrightarrow> fst run = TradeSuccess Null)
            \<and> attemptsMade (snd run) = Suc k
            \<and> (\<exists>pre. snd run =
                  pre @ [BundleSubmit, LogLine INFO ''Bundle sent successfully'' NoDetails,
                         LogLine INFO ''waiting confirmation.'' NoDetails]
                      @ snd requery
                      @ [LogLine INFO ''Initial Price. Initiating sell...'' NoDetails])"
proof -
  let ?p = "case fst (getTokenInfo tokenAddress (postBuy (envs k))) of
              Some info \<Rightarrow> price info | None \<Rightarrow> Null"
  let ?tail = "[BundleSubmit, LogLine INFO ''Bundle sent successfully'' NoDetails,
                LogLine INFO ''waiting confirmation.'' NoDetails]
               @ snd (getTokenInfo tokenAddress (postBuy (envs k)))
               @ [LogLine INFO ''Initial Price. Initiating sell...'' NoDetails]"
  let ?F = "failedRounds tokenAddress percentage True slippage envs 0 k"
  from attempt_accepted [OF assms(2,3), of tokenAddress percentage slippage] assms(1)
  obtain pre where A: "attempt tokenAddress percentage True slippage (envs k) =
      (Inr (TradeSuccess ?p), pre @ ?tail)"
    by blast
  have "tradeLoop tokenAddress percentage True slippage maxRetries envs 0 =
      (TradeSuccess ?p, ?F @ pre @ ?tail)"
    using assms(4,5) A
    by (intro tradeLoop_after_failures) simp_all
  then have run: "tradeTokenWithJupiter tokenAddress percentage True slippage maxRetries envs =
      (TradeSuccess ?p, ?F @ pre @ ?tail)"
    by (simp add: tradeTokenWithJupiter_def)
  have "attemptsMade (pre @ ?tail) = 1"
    using attemptsMade_attempt [of tokenAddress percentage True slippage "envs k"] A
    by (simp del: attemptsMade_append attemptsMade_Cons)
  with run have n: "attemptsMade (snd (tradeTokenWithJupiter tokenAddress percentage True
      slippage maxRetries envs)) = Suc k"
    by (simp del: attemptsMade_Cons)
  from run have "snd (tradeTokenWithJupiter tokenAddress percentage True slippage maxRetries envs)
      = (?F @ pre) @ ?tail" by simp
  then have ex: "\<exists>pre. snd (tradeTokenWithJupiter tokenAddress percentage True slippage
      maxRetries envs) = pre @ ?tail" by blast
  from run n ex show ?thesis
    unfolding Let_def by (auto split: option.splits)
qed

theorem accepted_buy_returns_price_witness:
  "fst (tradeTokenWithJupiter ''T'' (Fin 6) True (Fin 5) 3
         (\<lambda>k. if k = 0 then offline
              else online ''T'' (Fin 1000000000) \<lparr>uiAmount = Null, decimals = 0\<rparr> (Number (Fin 2))))
     = TradeSuccess (Number (Fin 2))
   \<and> attemptsMade (snd (tradeTokenWithJupiter ''T'' (Fin 6) True (Fin 5) 3
         (\<lambda>k. if k = 0 then offline
              else online ''T'' (Fin 1000000000) \<lparr>uiAmount = Null, decimals = 0\<rparr> (Number (Fin 2)))))
     = 2"
proof -
  let ?on = "online ''T'' (Fin 1000000000) \<lparr>uiAmount = Null, decimals = 0\<rparr> (Number (Fin 2))"
  let ?envs = "\<lambda>k::nat. if k = 0 then offline else ?on"
  have pos: "\<not> js_lt (buyAmount (Fin 1000000000) (Fin 6)) (Fin 0)"
    by (simp add: buyAmount_one_sol_six_percent)
  have h1: "BundleSubmit \<in> set (snd (attempt ''T'' (Fin 6) True (Fin 5) (?envs 1)))"
    by (simp add: attempt_online_buy [OF pos])
  have h2: "sendBundle_r (?envs 1) = Resolves ''uuid-1''" and h3: "''uuid-1'' \<noteq> []"
    by (simp_all add: online_def)
  have h4: "int 1 < 3" by simp
  have h5: "\<forall>j<1. isl (fst (attempt ''T'' (Fin 6) True (Fin 5) (?envs j)))"
    by (simp add: attempt_offline_buy)
  from accepted_buy_returns_price [of "''T''" "Fin 6" "Fin 5" ?envs 1, OF h1 h2 h3 h4 h5]
  show ?thesis
    by (simp add: Let_def online_def getTokenInfo_priced)
qed

section \<open>The error of rounding\<close>

text \<open>
  A positive rational between \<open>2^-1022\<close> and \<open>2^1023\<close> is rounded with a relative error of
  \<open>2^-53\<close> at most, and a whole number below \<open>2^53\<close> in magnitude is not changed. With
  these the distance between an amount that the program computes in binary64 and the
  value of the same formula over the rationals is bounded.
\<close>

lemma pow2_powi: "pow2 k = 2 powi k"
proof (cases "0 \<le> k")
  case True
  then show ?thesis by (simp add: pow2_def power_int_nonneg_exp)
next
  case False
  then have "(2::rat) powi k = 1 / 2 powi (- k)"
    using power_int_minus_divide [of "2::rat" "- k"] by simp
  with False show ?thesis by (simp add: pow2_def power_int_nonneg_exp)
qed

lemma pow2_pos [simp]: "0 < pow2 k"
  by (simp add: pow2_powi)

lemma pow2_add: "pow2 (a + b) = pow2 a * pow2 b"
  by (simp add: pow2_powi power_int_add)

lemma pow2_mono: "a \<le> b \<Longrightarrow> pow2 a \<le> pow2 b"
  by (simp add: pow2_powi power_int_increasing)

lemma pow2_strict_mono: "a < b \<Longrightarrow> pow2 a < pow2 b"
  by (simp add: pow2_powi power_int_strict_increasing)

lemma pow2_less_cancel: "pow2 a < pow2 b \<Longrightarrow> a < b"
  using pow2_mono [of b a] by (cases "a < b") auto

lemma pow2_nat: "0 \<le> k \<Longrightarrow> pow2 k = 2 ^ nat k"
  by (simp add: pow2_def)

lemma ilog2_bounds:
  assumes "0 < a"
  shows "pow2 (ilog2 a) \<le> a \<and> a < pow2 (ilog2 a + 1)"
proof -
  obtain n d where q: "quotient_of a = (n, d)" by (cases "quotient_of a")
  then have d: "0 < d" and a: "a = of_int n / of_int d"
    using quotient_of_denom_pos quotient_of_div by blast+
  with assms have n: "0 < n"
    by (simp add: zero_less_divide_iff)
  let ?k = "bitlen n - bitlen d"
  from bitlen_bounds [OF n] have bn: "2 ^ nat (bitlen n - 1) \<le> n" "n < 2 ^ nat (bitlen n)"
    by simp_all
  from bitlen_bounds [OF d] have bd: "2 ^ nat (bitlen d - 1) \<le> d" "d < 2 ^ nat (bitlen d)"
    by simp_all
  have pn: "1 \<le> bitlen n" and pd: "1 \<le> bitlen d"
    using n d bitlen_eq_zero_iff [of n] bitlen_eq_zero_iff [of d] bitlen_nonneg [of n]
      bitlen_nonneg [of d] by linarith+
  have cast: "(of_int (2 ^ j) :: rat) = 2 ^ j" for j :: nat
    by simp
  have n1: "pow2 (bitlen n - 1) \<le> of_int n"
  proof -
    from bn(1) have "(of_int (2 ^ nat (bitlen n - 1)) :: rat) \<le> of_int n"
      by (simp only: of_int_le_iff)
    with pn show ?thesis by (simp only: cast pow2_nat)
  qed
  have n2: "of_int n < pow2 (bitlen n)"
  proof -
    from bn(2) have "(of_int n :: rat) < of_int (2 ^ nat (bitlen n))"
      by (simp only: of_int_less_iff)
    with pn show ?thesis by (simp only: cast pow2_nat)
  qed
  have d1: "pow2 (bitlen d - 1) \<le> of_int d"
  proof -
    from bd(1) have "(of_int (2 ^ nat (bitlen d - 1)) :: rat) \<le> of_int d"
      by (simp only: of_int_le_iff)
    with pd show ?thesis by (simp only: cast pow2_nat)
  qed
  have d2: "of_int d < pow2 (bitlen d)"
  proof -
    from bd(2) have "(of_int d :: rat) < of_int (2 ^ nat (bitlen d))"
      by (simp only: of_int_less_iff)
    with pd show ?thesis by (simp only: cast pow2_nat)
  qed
  have up: "a < pow2 (?k + 1)"
  proof -
    have "of_int n < pow2 (?k + 1) * pow2 (bitlen d - 1)"
      using n2 by (simp flip: pow2_add)
    also have "\<dots> \<le> pow2 (?k + 1) * of_int d"
      using d1 by simp
    finally show ?thesis using d by (simp add: a pos_divide_less_eq)
  qed
  have lo: "pow2 (?k - 1) < a"
  proof -
    have "pow2 (?k - 1) * of_int d < pow2 (?k - 1) * pow2 (bitlen d)"
      using d2 by simp
    also have "\<dots> = pow2 (bitlen n - 1)"
      by (simp flip: pow2_add)
    also have "\<dots> \<le> of_int n" by (rule n1)
    finally show ?thesis using d by (simp add: a pos_less_divide_eq)
  qed
  show ?thesis
  proof (cases "pow2 ?k \<le> a")
    case True
    with q up show ?thesis by (simp add: ilog2_def)
  next
    case False
    with q lo show ?thesis by (simp add: ilog2_def)
  qed
qed

lemma ilog2_ge: "0 < a \<Longrightarrow> pow2 k \<le> a \<Longrightarrow> k \<le> ilog2 a"
  using ilog2_bounds [of a] pow2_less_cancel [of k "ilog2 a + 1"] by simp

lemma ilog2_lt: "0 < a \<Longrightarrow> a < pow2 k \<Longrightarrow> ilog2 a < k"
  using ilog2_bounds [of a] pow2_less_cancel [of "ilog2 a" k] by simp

lemma round_half_even_error: "\<bar>of_int (round_half_even m) - m\<bar> \<le> 1 / 2"
proof -
  define n where "n = \<lfloor>m\<rfloor>"
  define f where "f = m - of_int n"
  have f: "0 \<le> f" "f < 1"
    unfolding f_def n_def by linarith+
  have m: "m = of_int n + f" by (simp add: f_def)
  have r: "round_half_even m =
      (if f < 1 / 2 then n else if 1 / 2 < f then n + 1 else if even n then n else n + 1)"
    unfolding round_half_even_def Let_def n_def f_def ..
  consider "f < 1 / 2" | "1 / 2 < f" | "f = 1 / 2" by linarith
  then show ?thesis
  proof cases
    case 1
    with r have "round_half_even m = n" by simp
    with f 1 show ?thesis by (simp add: m)
  next
    case 2
    with r have "round_half_even m = n + 1" by simp
    with f 2 show ?thesis by (simp add: m)
  next
    case 3
    with r have "round_half_even m = n \<or> round_half_even m = n + 1" by simp
    with 3 show ?thesis by (auto simp: m)
  qed
qed

lemma round_half_even_int [simp]: "round_half_even (of_int j) = j"
  by (simp add: round_half_even_def)

lemma pow2_minus_one: "pow2 (- 1) = 1 / 2"
  by (simp add: pow2_def)

lemma pow2_zero [simp]: "pow2 0 = 1"
  by (simp add: pow2_def)

lemma rnd_normal:
  assumes "0 < q" and "- 1022 \<le> ilog2 q" and "ilog2 q < 1023"
  shows "\<exists>r. rnd q = Fin r \<and> \<bar>r - q\<bar> \<le> q * pow2 (- 53)"
proof -
  define e where "e = ilog2 q"
  define t where "t = e - 52"
  define m where "m = q / pow2 t"
  define r where "r = of_int (round_half_even m) * pow2 t"
  from assms(2) have tmax: "max (e - 52) (- 1074) = t"
    by (simp add: e_def t_def)
  from assms(1,3) have "rnd q = Fin r"
    by (simp add: rnd_def Let_def e_def [symmetric] tmax m_def r_def)
  moreover have "\<bar>r - q\<bar> \<le> q * pow2 (- 53)"
  proof -
    have "pow2 t \<noteq> 0" by (metis pow2_pos less_irrefl)
    then have q: "q = m * pow2 t" by (simp add: m_def)
    have "\<bar>r - q\<bar> = \<bar>of_int (round_half_even m) - m\<bar> * pow2 t"
    proof -
      have "r - q = (of_int (round_half_even m) - m) * pow2 t"
        by (simp add: r_def q left_diff_distrib)
      moreover have "\<bar>pow2 t\<bar> = pow2 t"
        by (rule abs_of_pos) (rule pow2_pos)
      ultimately show ?thesis by (simp only: abs_mult)
    qed
    also have "\<dots> \<le> (1 / 2) * pow2 t"
      by (rule mult_right_mono [OF round_half_even_error less_imp_le [OF pow2_pos]])
    also have "\<dots> = pow2 e * pow2 (- 53)"
    proof -
      have "pow2 e * pow2 (- 53) = pow2 (t + - 1)"
        by (simp add: t_def flip: pow2_add)
      also have "\<dots> = pow2 t * pow2 (- 1)" by (rule pow2_add)
      finally show ?thesis by (simp add: pow2_minus_one)
    qed
    also have "\<dots> \<le> q * pow2 (- 53)"
      using ilog2_bounds [OF assms(1)] by (simp add: e_def)
    finally show ?thesis .
  qed
  ultimately show ?thesis by blast
qed

lemma rnd_int_exact:
  assumes "\<bar>n\<bar> < 2 ^ 53"
  shows "rnd (of_int n) = Fin (of_int n)"
proof (cases "n = 0")
  case True
  then show ?thesis by (simp add: rnd_def)
next
  case False
  define a :: rat where "a = of_int \<bar>n\<bar>"
  define e where "e = ilog2 a"
  define t where "t = e - 52"
  from False have a0: "0 < a" and a1: "1 \<le> a"
    by (simp_all add: a_def)
  from assms have a53: "a < pow2 53"
  proof -
    from assms have "(of_int \<bar>n\<bar> :: rat) < of_int (2 ^ 53)"
      by (simp only: of_int_less_iff)
    then show ?thesis by (simp add: a_def pow2_def)
  qed
  have e0: "0 \<le> e" using ilog2_ge [OF a0, of 0] a1 by (simp add: e_def)
  have e53: "e < 53" using ilog2_lt [OF a0 a53] by (simp add: e_def)
  from e0 have tmax: "max (e - 52) (- 1074) = t" by (simp add: t_def)
  have "a = of_int (\<bar>n\<bar> * 2 ^ nat (- t)) * pow2 t"
  proof -
    from e53 have "pow2 (- t) = 2 ^ nat (- t)" by (simp add: pow2_nat t_def)
    moreover have "pow2 (- t) * pow2 t = 1" by (simp flip: pow2_add)
    ultimately show ?thesis by (simp add: a_def mult.assoc)
  qed
  moreover have "pow2 t \<noteq> 0" by (metis pow2_pos less_irrefl)
  ultimately have m: "a / pow2 t = of_int (\<bar>n\<bar> * 2 ^ nat (- t))" and
    r: "of_int (\<bar>n\<bar> * 2 ^ nat (- t)) * pow2 t = a"
    by (simp_all add: field_simps)
  have abs: "\<bar>of_int n :: rat\<bar> = a" by (simp add: a_def)
  have "rnd (of_int n) = Fin (if 0 < (of_int n :: rat) then a else - a)"
    using False e53
    unfolding rnd_def Let_def abs e_def [symmetric] tmax m round_half_even_int r
    by simp
  also have "(if 0 < (of_int n :: rat) then a else - a) = of_int n"
    using False by (simp add: a_def)
  finally show ?thesis .
qed

lemma rnd_between:
  assumes "pow2 l \<le> q" and "q < pow2 u" and "- 1022 \<le> l" and "u \<le> 1023"
  shows "\<exists>r. rnd q = Fin r \<and> \<bar>r - q\<bar> \<le> q * pow2 (- 53)"
proof -
  have q: "0 < q" using pow2_pos [of l] assms(1) by (rule less_le_trans)
  from ilog2_ge [OF q assms(1)] assms(3) have "- 1022 \<le> ilog2 q" by simp
  moreover from ilog2_lt [OF q assms(2)] assms(4) have "ilog2 q < 1023" by simp
  ultimately show ?thesis using q by (intro rnd_normal)
qed

lemma floor_near:
  fixes r :: rat and m :: int
  assumes "0 \<le> m" and "\<bar>r - of_int m / 100\<bar> < 1 / 100"
  shows "\<lfloor>r\<rfloor> = m div 100 \<or> \<lfloor>r\<rfloor> = m div 100 - 1"
proof -
  define E where "E = m div 100"
  define f where "f = m mod 100"
  have f: "0 \<le> f" "f \<le> 99" by (simp_all add: f_def) 
  have "m = 100 * E + f" by (simp add: E_def f_def)
  then have "(of_int m :: rat) = of_int (100 * E + f)" by simp
  then have m: "(of_int m :: rat) / 100 = of_int E + of_int f / 100" by simp
  from f have "(0::rat) \<le> of_int f" "(of_int f :: rat) \<le> 99"
    by simp_all
  with assms(2) have lo: "of_int E - 1 < r" and hi: "r < of_int E + 1"
    unfolding m by linarith+
  show ?thesis
  proof (cases "r < of_int E")
    case True
    with lo have "\<lfloor>r\<rfloor> = E - 1" by (intro floor_unique) simp_all
    then show ?thesis by (simp add: E_def)
  next
    case False
    with hi have "\<lfloor>r\<rfloor> = E" by (intro floor_unique) simp_all
    then show ?thesis by (simp add: E_def)
  qed
qed

lemma percent_product_near:
  fixes b p :: int
  assumes "1 \<le> b" and "1 \<le> p" and "p \<le> 100" and "b * p \<le> 2 ^ 51"
  shows "\<exists>r. js_mul (Fin (of_int b)) (js_div (Fin (of_int p)) (Fin 100)) = Fin r
           \<and> \<bar>r - of_int (b * p) / 100\<bar> < 1 / 100"
proof -
  define q :: rat where "q = of_int p / 100"
  define y :: rat where "y = of_int b * q"
  have eps: "pow2 (- 53) = 1 / 9007199254740992" by (simp add: pow2_def)
  from assms(2,3) have q: "1 / 100 \<le> q" "q \<le> 1" by (simp_all add: q_def)
  have "pow2 (- 7) \<le> q" "q < pow2 1" using q by (simp_all add: pow2_def)
  from rnd_between [OF this] obtain r1 where
    r1: "rnd q = Fin r1" and e1: "\<bar>r1 - q\<bar> \<le> q * pow2 (- 53)"
    by auto
  have div: "js_div (Fin (of_int p)) (Fin 100) = Fin r1"
    by (simp add: js_div.simps r1 [unfolded q_def])
  define x where "x = of_int b * r1"
  have b: "(1::rat) \<le> of_int b" using assms(1) by simp
  have y: "y = of_int (b * p) / 100" by (simp add: y_def q_def)
  from assms(1,2) have "1 * 1 \<le> b * p" by (intro mult_mono) simp_all
  then have "(of_int 1 :: rat) \<le> of_int (b * p)" by (simp only: of_int_le_iff mult_1)
  then have ylo: "1 / 100 \<le> y" by (simp add: y)
  from assms(4) have "(of_int (b * p) :: rat) \<le> of_int (2 ^ 51)" by (simp only: of_int_le_iff)
  then have yhi: "y \<le> 2251799813685248 / 100" by (simp add: y)
  have "\<bar>x - y\<bar> = of_int b * \<bar>r1 - q\<bar>"
  proof -
    have "x - y = of_int b * (r1 - q)" by (simp add: x_def y_def right_diff_distrib)
    moreover have "\<bar>of_int b :: rat\<bar> = of_int b" using b by simp
    ultimately show ?thesis by (simp only: abs_mult)
  qed
  also have "\<dots> \<le> of_int b * (q * pow2 (- 53))"
    using e1 b by (intro mult_left_mono) simp_all
  also have "\<dots> = y * pow2 (- 53)" by (simp add: y_def)
  finally have e2: "\<bar>x - y\<bar> \<le> y / 9007199254740992" by (simp add: eps)
  from e2 have xb: "y - y / 9007199254740992 \<le> x \<and> x \<le> y + y / 9007199254740992"
    by (simp only: abs_diff_le_iff)
  have "1 / 256 \<le> x" "x < 2251799813685248"
    using xb ylo yhi by linarith+
  then have "pow2 (- 8) \<le> x" "x < pow2 51"
    by (simp_all add: pow2_def)
  from rnd_between [OF this] obtain r2 where
    r2: "rnd x = Fin r2" and e3: "\<bar>r2 - x\<bar> \<le> x * pow2 (- 53)"
    by auto
  have mul: "js_mul (Fin (of_int b)) (Fin r1) = Fin r2"
    by (simp add: js_mul.simps r2 [unfolded x_def])
  from e3 have "\<bar>r2 - x\<bar> \<le> x / 9007199254740992" by (simp add: eps)
  then have "x - x / 9007199254740992 \<le> r2 \<and> r2 \<le> x + x / 9007199254740992"
    by (simp only: abs_diff_le_iff)
  with xb ylo yhi have "y - 1 / 100 < r2 \<and> r2 < y + 1 / 100" by linarith
  then have "\<bar>r2 - y\<bar> < 1 / 100" by (simp only: abs_diff_less_iff)
  with div mul show ?thesis by (simp add: y)
qed

lemma rnd_int_sub:
  assumes "\<bar>n - k\<bar> < 2 ^ 53"
  shows "js_sub (Fin (of_int n)) (Fin (of_int k)) = Fin (of_int (n - k))"
  using rnd_int_exact [OF assms] by (simp add: js_sub.simps)

lemma pow10_exact: "\<forall>d\<in>set [0..<23]. rnd (10 ^ d) = Fin (10 ^ d)"
  by code_simp

lemma js_pow10_exact: "d \<le> 22 \<Longrightarrow> js_pow10 d = Fin (10 ^ d)"
  using pow10_exact unfolding js_pow10_def by (simp del: upt_Suc)

lemma floor_close:
  fixes r y :: rat
  assumes "\<bar>r - y\<bar> < 1"
  shows "\<bar>\<lfloor>r\<rfloor> - \<lfloor>y\<rfloor>\<bar> \<le> 1"
proof -
  from assms have "y - 1 < r \<and> r < y + 1" by (simp only: abs_diff_less_iff)
  moreover have "of_int \<lfloor>r\<rfloor> \<le> r" "r < of_int \<lfloor>r\<rfloor> + 1"
    and "of_int \<lfloor>y\<rfloor> \<le> y" "y < of_int \<lfloor>y\<rfloor> + 1"
    using floor_correct [of r] floor_correct [of y] by simp_all
  ultimately have "(of_int \<lfloor>r\<rfloor> :: rat) < of_int \<lfloor>y\<rfloor> + 2"
    and "(of_int \<lfloor>y\<rfloor> :: rat) < of_int \<lfloor>r\<rfloor> + 2"
    by linarith+
  then have "(of_int \<lfloor>r\<rfloor> :: rat) < of_int (\<lfloor>y\<rfloor> + 2)"
    and "(of_int \<lfloor>y\<rfloor> :: rat) < of_int (\<lfloor>r\<rfloor> + 2)"
    by simp_all
  then have "\<lfloor>r\<rfloor> < \<lfloor>y\<rfloor> + 2" and "\<lfloor>y\<rfloor> < \<lfloor>r\<rfloor> + 2"
    by (simp_all only: of_int_less_iff)
  then show ?thesis by simp
qed

section \<open>The size of a buy\<close>

lemma trade_returns_after_failures:
  assumes "int k < maxRetries"
    and "\<forall>j<k. isl (fst (attempt tokenAddress percentage isBuy slippage (envs j)))"
    and "attempt tokenAddress percentage isBuy slippage (envs k) = (Inr res, evs)"
  shows "tradeTokenWithJupiter tokenAddress percentage isBuy slippage maxRetries envs =
           (res, failedRounds tokenAddress percentage isBuy slippage envs 0 k @ evs)"
  unfolding tradeTokenWithJupiter_def
  using assms by (intro tradeLoop_after_failures) simp_all

lemma attempt_buy_sized:
  assumes "getBalance_r env = Resolves balance"
  shows "if js_lt (buyAmount balance percentage) (Fin 0)
     then attempt tokenAddress percentage True slippage env =
            (Inr TradeFalse,
             [startLog True, BalanceQuery,
              LogLine ERROR ''Amount is less than gas fee and tip to Jito'' NoDetails])
     else \<exists>rest. snd (attempt tokenAddress percentage True slippage env) =
            [startLog True, BalanceQuery,
             QuoteRequest solAddress tokenAddress (buyAmount balance percentage)
               (js_mul slippage (Fin 100))] @ rest"
proof (cases "js_lt (buyAmount balance percentage) (Fin 0)")
  case True
  with assms show ?thesis
    by (simp add: attempt_def emit_def logTransaction_def await_def yield_def startLog_def)
next
  case False
  obtain rest where "snd (swapAndSend tokenAddress True slippage env (buyAmount balance percentage)
      solAddress tokenAddress) =
    QuoteRequest solAddress tokenAddress (buyAmount balance percentage) (js_mul slippage (Fin 100)) # rest"
    using swapAndSend_opens_with_quote by blast
  with False assms show ?thesis
    by (simp add: attempt_def emit_def logTransaction_def await_def startLog_def)
qed

lemma amount_one_sol_six_percent:
  "js_sub (js_sub (js_floor (js_mul (Fin 1000000000) (js_div (Fin 6) (Fin 100))))
                  (Fin 5000)) (Fin 10000) = Fin 59985000"
  by code_simp

lemma amount_dust_six_percent:
  "js_sub (js_sub (js_floor (js_mul (Fin 10000) (js_div (Fin 6) (Fin 100))))
                  (Fin 5000)) (Fin 10000) = Fin (- 14400)"
  by code_simp

lemma buyAmount_near_exact:
  fixes b p :: int
  assumes "0 \<le> b" and "1 \<le> p" and "p \<le> 100" and "b * p \<le> 2 ^ 51"
  shows "buyAmount (Fin (of_int b)) (Fin (of_int p)) = Fin (of_int (b * p div 100 - 15000))
       \<or> buyAmount (Fin (of_int b)) (Fin (of_int p)) = Fin (of_int (b * p div 100 - 15001))"
proof -
  define E where "E = b * p div 100"
  have "\<exists>n. js_floor (js_mul (Fin (of_int b)) (js_div (Fin (of_int p)) (Fin 100)))
            = Fin (of_int n) \<and> (n = E \<or> n = E - 1)"
  proof (cases "b = 0")
    case True
    have "pow2 (- 7) \<le> (of_int p :: rat) / 100" "(of_int p :: rat) / 100 < pow2 1"
      using assms(2,3) by (simp_all add: pow2_def)
    from rnd_between [OF this] obtain r1 where "rnd (of_int p / 100) = Fin r1" by auto
    then have "js_floor (js_mul (Fin (of_int b)) (js_div (Fin (of_int p)) (Fin 100)))
        = Fin (of_int 0)"
      using True by (simp add: js_div.simps js_mul.simps rnd_def)
    moreover have "E = 0" using True by (simp add: E_def)
    ultimately show ?thesis by blast
  next
    case False
    with assms(1) have "1 \<le> b" by simp
    from percent_product_near [OF this assms(2-4)] obtain r where
      r: "js_mul (Fin (of_int b)) (js_div (Fin (of_int p)) (Fin 100)) = Fin r"
      and near: "\<bar>r - of_int (b * p) / 100\<bar> < 1 / 100"
      by auto
    from assms(1,2) have "0 \<le> b * p" by simp
    from floor_near [OF this near] have "\<lfloor>r\<rfloor> = E \<or> \<lfloor>r\<rfloor> = E - 1"
      by (simp add: E_def)
    with r show ?thesis by simp
  qed
  then obtain n where
    n: "js_floor (js_mul (Fin (of_int b)) (js_div (Fin (of_int p)) (Fin 100))) = Fin (of_int n)"
    and cases: "n = E \<or> n = E - 1"
    by auto
  from assms(1,2) have "0 \<le> b * p" by simp
  then have E0: "0 \<le> E" by (simp add: E_def)
  have "E \<le> b * p" using \<open>0 \<le> b * p\<close> unfolding E_def
    by (simp add: div_by_1 [symmetric] zdiv_mono2 del: div_by_1)
  with assms(4) have E1: "E \<le> 2 ^ 51" by simp
  from cases E0 E1 have "\<bar>n - 5000\<bar> < 2 ^ 53" "\<bar>(n - 5000) - 10000\<bar> < 2 ^ 53"
    by auto
  then have "js_sub (js_sub (Fin (of_int n)) (Fin (of_int 5000))) (Fin (of_int 10000))
      = Fin (of_int (n - 5000 - 10000))"
    by (simp only: rnd_int_sub)
  then have "buyAmount (Fin (of_int b)) (Fin (of_int p)) = Fin (of_int (n - 15000))"
    by (simp add: buyAmount_def gas_fee_value tip_value n)
  with cases show ?thesis by (auto simp add: E_def)
qed

text \<open>
  C2, as the code has it. On a buy attempt whose balance query resolves, the trade size
  is \<^verbatim>\<open>Math.floor(balance * (percentage / 100)) - 5000 - 10000\<close> in binary64
  arithmetic: the quotient is rounded, then the product is rounded, then the floor is
  taken. When it is negative the attempt logs the error and returns \<^verbatim>\<open>false\<close>, and so
  does the call, with no quote, no submission and no further attempt; otherwise the
  quote is requested for exactly this amount. With a balance of 1000000000 and 6 percent
  the amount is 59985000. For a balance of \<open>b\<close> lamports and a whole percentage \<open>p\<close>
  from 1 to 100 with \<open>b * p\<close> up to \<open>2^51\<close>, the amount is the whole number
  \<open>b * p div 100 - 15000\<close>, that is \<open>floor (b * p / 100) - 5000 - 10000\<close> over the
  rationals, or one less.
\<close>

theorem buy_amount_in_binary64:
  fixes b p :: int
  assumes "getBalance_r (envs k) = Resolves balance"
  shows "let amount = js_sub (js_sub (js_floor (js_mul balance (js_div percentage (Fin 100))))
                                     (Fin 5000)) (Fin 10000);
             abort = [startLog True, BalanceQuery,
                      LogLine ERROR ''Amount is less than gas fee and tip to Jito'' NoDetails]
         in (if js_lt amount (Fin 0)
             then attempt tokenAddress percentage True slippage (envs k) = (Inr TradeFalse, abort)
                  \<and> (int k < maxRetries
                     \<and> (\<forall>j<k. isl (fst (attempt tokenAddress percentage True slippage (envs j))))
                     \<longrightarrow> tradeTokenWithJupiter tokenAddress percentage True slippage maxRetries
                           envs =
                         (TradeFalse,
                          failedRounds tokenAddress percentage True slippage envs 0 k @ abort))
             else \<exists>rest. snd (attempt tokenAddress percentage True slippage (envs k)) =
                    [startLog True, BalanceQuery,
                     QuoteRequest solAddress tokenAddress amount (js_mul slippage (Fin 100))]
                    @ rest)
            \<and> buyAmount (Fin 1000000000) (Fin 6) = Fin 59985000
            \<and> (0 \<le> b \<and> 1 \<le> p \<and> p \<le> 100 \<and> b * p \<le> 2 ^ 51
               \<longrightarrow> buyAmount (Fin (of_int b)) (Fin (of_int p))
                     \<in> {Fin (of_int (b * p div 100 - 15000)),
                         Fin (of_int (b * p div 100 - 15001))})"
proof -
  have near: "0 \<le> b \<and> 1 \<le> p \<and> p \<le> 100 \<and> b * p \<le> 2 ^ 51
      \<longrightarrow> buyAmount (Fin (of_int b)) (Fin (of_int p))
            \<in> {Fin (of_int (b * p div 100 - 15000)), Fin (of_int (b * p div 100 - 15001))}"
    using buyAmount_near_exact [of b p] by auto
  let ?amount = "js_sub (js_sub (js_floor (js_mul balance (js_div percentage (Fin 100))))
                                (Fin 5000)) (Fin 10000)"
  let ?abort = "[startLog True, BalanceQuery,
                 LogLine ERROR ''Amount is less than gas fee and tip to Jito'' NoDetails]"
  have amount: "buyAmount balance percentage = ?amount"
    by (simp add: buyAmount_def gas_fee_value tip_value)
  note sized = attempt_buy_sized [OF assms, of percentage tokenAddress slippage, unfolded amount]
  have loop: "tradeTokenWithJupiter tokenAddress percentage True slippage maxRetries envs =
      (TradeFalse, failedRounds tokenAddress percentage True slippage envs 0 k @ ?abort)"
    if "js_lt ?amount (Fin 0)" "int k < maxRetries"
      "\<forall>j<k. isl (fst (attempt tokenAddress percentage True slippage (envs j)))"
  proof -
    from sized that(1)
    have "attempt tokenAddress percentage True slippage (envs k) = (Inr TradeFalse, ?abort)"
      by simp
    with that(2,3) show ?thesis
      by (intro trade_returns_after_failures)
  qed
  show ?thesis
  proof (cases "js_lt ?amount (Fin 0)")
    case True
    with sized loop buyAmount_one_sol_six_percent near show ?thesis
      unfolding Let_def by simp
  next
    case False
    with sized buyAmount_one_sol_six_percent near show ?thesis
      unfolding Let_def by simp
  qed
qed

theorem buy_amount_in_binary64_witness:
  "take 3 (snd (attempt ''T'' (Fin 6) True (Fin 5)
      (online ''T'' (Fin 1000000000) \<lparr>uiAmount = Null, decimals = 0\<rparr> (Number (Fin 2))))) =
     [startLog True, BalanceQuery, QuoteRequest solAddress ''T'' (Fin 59985000) (Fin 500)]
   \<and> tradeTokenWithJupiter ''T'' (Fin 6) True (Fin 5) 3
        (\<lambda>k. online ''T'' (Fin 10000) \<lparr>uiAmount = Null, decimals = 0\<rparr> (Number (Fin 2))) =
       (TradeFalse,
        [startLog True, BalanceQuery,
         LogLine ERROR ''Amount is less than gas fee and tip to Jito'' NoDetails])
   \<and> buyAmount (Fin 100000000) (Fin 29) \<in> {Fin 28985000, Fin 28984999}"
proof -
  let ?tk = "\<lparr>uiAmount = Null, decimals = 0\<rparr>"
  let ?rich = "online ''T'' (Fin 1000000000) ?tk (Number (Fin 2))"
  let ?poor = "online ''T'' (Fin 10000) ?tk (Number (Fin 2))"
  have rich: "getBalance_r ((\<lambda>k::nat. ?rich) 0) = Resolves (Fin 1000000000)"
    and poor: "getBalance_r ((\<lambda>k::nat. ?poor) 0) = Resolves (Fin 10000)"
    by (simp_all add: online_def)
  note r = buy_amount_in_binary64 [where envs = "\<lambda>k. ?rich" and k = 0 and percentage = "Fin 6"
      and tokenAddress = "''T''" and slippage = "Fin 5" and maxRetries = 3
      and b = 100000000 and p = 29, OF rich]
  have "\<exists>rest. snd (attempt ''T'' (Fin 6) True (Fin 5) ?rich) =
      [startLog True, BalanceQuery, QuoteRequest solAddress ''T'' (Fin 59985000) (Fin 500)] @ rest"
    using r unfolding Let_def amount_one_sol_six_percent slippage_bps by simp
  then have first: "take 3 (snd (attempt ''T'' (Fin 6) True (Fin 5) ?rich)) =
      [startLog True, BalanceQuery, QuoteRequest solAddress ''T'' (Fin 59985000) (Fin 500)]"
    by auto
  note p = buy_amount_in_binary64 [where envs = "\<lambda>k. ?poor" and k = 0 and percentage = "Fin 6"
      and tokenAddress = "''T''" and slippage = "Fin 5" and maxRetries = 3
      and b = 100000000 and p = 29, OF poor]
  have second: "tradeTokenWithJupiter ''T'' (Fin 6) True (Fin 5) 3 (\<lambda>k. ?poor) =
      (TradeFalse,
       [startLog True, BalanceQuery,
        LogLine ERROR ''Amount is less than gas fee and tip to Jito'' NoDetails])"
    using p unfolding Let_def amount_dust_six_percent by simp
  note r [unfolded Let_def, THEN conjunct2, THEN conjunct2]
  then have third: "buyAmount (Fin 100000000) (Fin 29) \<in> {Fin 28985000, Fin 28984999}"
    by simp
  from first second third show ?thesis by simp
qed

lemma buy_formula_left_to_right:
  "js_sub (js_sub (js_floor (js_div (js_mul (Fin 100000000) (Fin 29)) (Fin 100)))
                  (Fin 5000)) (Fin 10000) = Fin 28985000"
  by code_simp

text \<open>
  C2, as the claim has it, fails: with a balance of 100000000 lamports and 29 percent
  the nearest binary64 value to \<open>29 / 100\<close> lies below it, the rounded product is
  \<open>28999999.999999996...\<close>, its floor 28999999, and the quote is requested for 28984999.
  The claim's \<open>floor (balance * p / 100) - gasFee - tipAmount\<close> is 28985000, one more,
  whether it is read over the rationals or evaluated in binary64 from left to right (the
  product \<open>balance * p\<close> first).
\<close>

theorem buy_amount_below_exact_floor:
  "buyAmount (Fin 100000000) (Fin 29) = Fin 28984999
   \<and> buyAmount (Fin 100000000) (Fin 29)
       \<noteq> Fin (of_int (\<lfloor>100000000 * 29 / (100::rat)\<rfloor> - 5000 - 10000))
   \<and> buyAmount (Fin 100000000) (Fin 29)
       \<noteq> js_sub (js_sub (js_floor (js_div (js_mul (Fin 100000000) (Fin 29)) (Fin 100)))
                          (Fin 5000)) (Fin 10000)
   \<and> take 3 (snd (attempt ''T'' (Fin 29) True (Fin 5)
        (online ''T'' (Fin 100000000) \<lparr>uiAmount = Null, decimals = 0\<rparr> (Number (Fin 1))))) =
       [startLog True, BalanceQuery, QuoteRequest solAddress ''T'' (Fin 28984999) (Fin 500)]"
proof -
  have "\<not> js_lt (buyAmount (Fin 100000000) (Fin 29)) (Fin 0)"
    by (simp add: buyAmount_tenth_sol_29_percent)
  from attempt_online_buy [OF this] show ?thesis
    unfolding buy_formula_left_to_right
    by (simp add: buyAmount_tenth_sol_29_percent slippage_bps)
qed

section \<open>The size of a sell\<close>

lemma attempt_sell_sized:
  assumes "tokenAccount_r env = Resolves account"
    and "getTokenAccountBalance_r env = Resolves tokenBalance"
  shows "\<exists>rest. snd (attempt tokenAddress percentage False slippage env) =
            [startLog False, TokenBalanceQuery account,
             QuoteRequest tokenAddress solAddress (sellAmount tokenBalance percentage)
               (js_mul slippage (Fin 100))] @ rest"
proof -
  obtain rest where "snd (swapAndSend tokenAddress False slippage env
      (sellAmount tokenBalance percentage) tokenAddress solAddress) =
    QuoteRequest tokenAddress solAddress (sellAmount tokenBalance percentage)
      (js_mul slippage (Fin 100)) # rest"
    using swapAndSend_opens_with_quote by blast
  with assms show ?thesis
    by (simp add: attempt_def emit_def logTransaction_def await_def yield_def startLog_def)
qed

lemma sellAmount_near_exact:
  fixes u :: rat and p :: int
  assumes "1 \<le> p" and "p \<le> 100" and "d \<le> 22"
    and "1 \<le> u * 10 ^ d" and "u * (of_int p / 100) * 10 ^ d \<le> 2 ^ 51"
  shows "\<exists>n. sellAmount \<lparr>uiAmount = Number (Fin u), decimals = d\<rparr> (Fin (of_int p))
              = Fin (of_int n)
           \<and> \<bar>n - \<lfloor>u * (of_int p / 100) * 10 ^ d\<rfloor>\<bar> \<le> 1"
proof -
  define q :: rat where "q = of_int p / 100"
  define T :: rat where "T = 10 ^ d"
  define w where "w = u * q"
  define y where "y = w * T"
  have eps: "pow2 (- 53) = 1 / 9007199254740992" by (simp add: pow2_def)
  from assms(1,2) have q: "1 / 100 \<le> q" "q \<le> 1" by (simp_all add: q_def)
  have T1: "1 \<le> T" by (simp add: T_def)
  have "(10::rat) ^ d \<le> 10 ^ 22" using assms(3) by (intro power_increasing) simp_all
  then have T2: "T \<le> 10000000000000000000000" by (simp add: T_def)
  have T0: "0 < T" using T1 by simp
  from assms(4) have "1 / T \<le> u" using T0 by (simp add: T_def field_simps)
  moreover have "1 / 10000000000000000000000 \<le> 1 / T"
    using T2 T0 by (simp add: field_simps)
  ultimately have u: "1 / 10000000000000000000000 \<le> u" by simp
  then have u0: "0 \<le> u" by simp
  have "pow2 (- 7) \<le> q" "q < pow2 1" using q by (simp_all add: pow2_def)
  from rnd_between [OF this] obtain r1 where
    r1: "rnd q = Fin r1" and e1: "\<bar>r1 - q\<bar> \<le> q * pow2 (- 53)"
    by auto
  have div: "js_div (Fin (of_int p)) (Fin 100) = Fin r1"
    by (simp add: js_div.simps r1 [unfolded q_def])
  have yhi: "y \<le> 2251799813685248"
    using assms(5) by (simp add: y_def w_def q_def T_def)
  have "1 / 10000000000000000000000 * (1 / 100) \<le> u * q"
    using u q(1) by (intro mult_mono) simp_all
  then have wlo: "1 / 1000000000000000000000000 \<le> w" by (simp add: w_def)
  then have w0: "0 \<le> w" by simp
  have "w * 1 \<le> w * T" using T1 w0 by (intro mult_left_mono)
  then have wy: "w \<le> y" by (simp add: y_def)
  \<comment> \<open>the first product\<close>
  define x1 where "x1 = u * r1"
  have "\<bar>x1 - w\<bar> = u * \<bar>r1 - q\<bar>"
  proof -
    have "x1 - w = u * (r1 - q)" by (simp add: x1_def w_def right_diff_distrib)
    moreover have "\<bar>u\<bar> = u" using u0 by simp
    ultimately show ?thesis by (simp only: abs_mult)
  qed
  also have "\<dots> \<le> u * (q * pow2 (- 53))"
    using e1 u0 by (intro mult_left_mono)
  also have "\<dots> = w * pow2 (- 53)" by (simp add: w_def)
  finally have "\<bar>x1 - w\<bar> \<le> w / 9007199254740992" by (simp add: eps)
  then have b1: "w - w / 9007199254740992 \<le> x1 \<and> x1 \<le> w + w / 9007199254740992"
    by (simp only: abs_diff_le_iff)
  have "1 / 1267650600228229401496703205376 \<le> x1" "x1 < 4503599627370496"
    using b1 wlo wy yhi by linarith+
  then have "pow2 (- 100) \<le> x1" "x1 < pow2 52"
    by (simp_all add: pow2_def)
  from rnd_between [OF this] obtain r2 where
    r2: "rnd x1 = Fin r2" and e2: "\<bar>r2 - x1\<bar> \<le> x1 * pow2 (- 53)"
    by auto
  have mul1: "js_mul (Fin u) (Fin r1) = Fin r2"
    by (simp add: js_mul.simps r2 [unfolded x1_def])
  from e2 have "\<bar>r2 - x1\<bar> \<le> x1 / 9007199254740992" by (simp add: eps)
  then have b2: "x1 - x1 / 9007199254740992 \<le> r2 \<and> r2 \<le> x1 + x1 / 9007199254740992"
    by (simp only: abs_diff_le_iff)
  \<comment> \<open>the second product\<close>
  define x2 where "x2 = r2 * T"
  define c :: rat where "c = 5 / 18014398509481984"
  from b1 b2 w0 have "\<bar>r2 - w\<bar> \<le> w * c"
    unfolding c_def by (simp only: abs_diff_le_iff) linarith
  then have "\<bar>r2 - w\<bar> * T \<le> w * c * T"
    using T0 by (intro mult_right_mono) simp_all
  moreover have "\<bar>x2 - y\<bar> = \<bar>r2 - w\<bar> * T"
  proof -
    have "x2 - y = (r2 - w) * T" by (simp add: x2_def y_def left_diff_distrib)
    moreover have "\<bar>T\<bar> = T" using T0 by simp
    ultimately show ?thesis by (simp only: abs_mult)
  qed
  ultimately have "\<bar>x2 - y\<bar> \<le> y * c" by (simp add: y_def mult.commute mult.left_commute)
  then have b3: "y - y * c \<le> x2 \<and> x2 \<le> y + y * c"
    by (simp only: abs_diff_le_iff)
  have r2lo: "1 / 2535301200456458802993406410752 \<le> r2"
    using b1 b2 wlo by linarith
  then have "r2 * 1 \<le> r2 * T" using T1 by (intro mult_left_mono) simp_all
  then have "r2 \<le> x2" by (simp add: x2_def)
  with r2lo have "1 / 2535301200456458802993406410752 \<le> x2" by linarith
  moreover have "x2 < 4503599627370496"
    using b3 yhi wy w0 unfolding c_def by linarith
  ultimately have "pow2 (- 101) \<le> x2" "x2 < pow2 52"
    by (simp_all add: pow2_def)
  from rnd_between [OF this] obtain r3 where
    r3: "rnd x2 = Fin r3" and e3: "\<bar>r3 - x2\<bar> \<le> x2 * pow2 (- 53)"
    by auto
  have mul2: "js_mul (Fin r2) (js_pow10 d) = Fin r3"
    by (simp add: js_mul.simps js_pow10_exact [OF assms(3)] r3 [unfolded x2_def T_def])
  from e3 have "\<bar>r3 - x2\<bar> \<le> x2 / 9007199254740992" by (simp add: eps)
  then have "x2 - x2 / 9007199254740992 \<le> r3 \<and> r3 \<le> x2 + x2 / 9007199254740992"
    by (simp only: abs_diff_le_iff)
  with b3 yhi wy w0 have "y - 1 < r3 \<and> r3 < y + 1"
    unfolding c_def by linarith
  then have "\<bar>r3 - y\<bar> < 1" by (simp only: abs_diff_less_iff)
  from floor_close [OF this] have "\<bar>\<lfloor>r3\<rfloor> - \<lfloor>u * (of_int p / 100) * 10 ^ d\<rfloor>\<bar> \<le> 1"
    by (simp add: y_def w_def q_def T_def)
  moreover have "sellAmount \<lparr>uiAmount = Number (Fin u), decimals = d\<rparr> (Fin (of_int p))
      = Fin (of_int \<lfloor>r3\<rfloor>)"
    by (simp add: sellAmount_def div mul1 mul2)
  ultimately show ?thesis by blast
qed

text \<open>
  C8, as the code has it. On a sell attempt whose token account and balance are read,
  the quote is requested, from the token to SOL, for
  \<^verbatim>\<open>Math.floor(uiAmount * (percentage / 100) * Math.pow(10, decimals))\<close> in binary64
  arithmetic, each of the quotient and the two products rounded in turn, a
  \<^verbatim>\<open>uiAmount\<close> of \<^verbatim>\<open>null\<close> counting as 0. For a balance \<open>u\<close> of one base unit at
  least (\<open>1 \<le> u * 10 ^ d\<close>), up to 22 decimals, and a whole percentage \<open>p\<close> from 1 to 100
  with \<open>u * (p / 100) * 10 ^ d\<close> up to \<open>2^51\<close>, the amount is a whole number that differs
  from the floor of \<open>u * (p / 100) * 10 ^ d\<close> over the rationals by one at most.
\<close>

theorem sell_amount_in_binary64:
  fixes u :: rat and p :: int and d :: nat
  assumes "tokenAccount_r env = Resolves account"
    and "getTokenAccountBalance_r env = Resolves tokenBalance"
  shows "(let amount = js_floor (js_mul (js_mul (to_number (uiAmount tokenBalance))
                                                (js_div percentage (Fin 100)))
                                        (js_pow10 (decimals tokenBalance)))
          in \<exists>rest. snd (attempt tokenAddress percentage False slippage env) =
               [startLog False, TokenBalanceQuery account,
                QuoteRequest tokenAddress solAddress amount (js_mul slippage (Fin 100))] @ rest)
         \<and> (1 \<le> p \<and> p \<le> 100 \<and> d \<le> 22 \<and> 1 \<le> u * 10 ^ d
              \<and> u * (of_int p / 100) * 10 ^ d \<le> 2 ^ 51
            \<longrightarrow> (\<exists>n. sellAmount \<lparr>uiAmount = Number (Fin u), decimals = d\<rparr> (Fin (of_int p))
                       = Fin (of_int n)
                     \<and> \<bar>n - \<lfloor>u * (of_int p / 100) * 10 ^ d\<rfloor>\<bar> \<le> 1))"
proof (intro conjI impI)
  show "let amount = js_floor (js_mul (js_mul (to_number (uiAmount tokenBalance))
                                              (js_div percentage (Fin 100)))
                                      (js_pow10 (decimals tokenBalance)))
        in \<exists>rest. snd (attempt tokenAddress percentage False slippage env) =
             [startLog False, TokenBalanceQuery account,
              QuoteRequest tokenAddress solAddress amount (js_mul slippage (Fin 100))] @ rest"
    using attempt_sell_sized [OF assms, of tokenAddress percentage slippage]
    by (simp add: sellAmount_def)
next
  assume "1 \<le> p \<and> p \<le> 100 \<and> d \<le> 22 \<and> 1 \<le> u * 10 ^ d
    \<and> u * (of_int p / 100) * 10 ^ d \<le> 2 ^ 51"
  then show "\<exists>n. sellAmount \<lparr>uiAmount = Number (Fin u), decimals = d\<rparr> (Fin (of_int p))
        = Fin (of_int n)
      \<and> \<bar>n - \<lfloor>u * (of_int p / 100) * 10 ^ d\<rfloor>\<bar> \<le> 1"
    by (intro sellAmount_near_exact) simp_all
qed

theorem sell_amount_in_binary64_witness:
  "take 3 (snd (attempt ''T'' (Fin 100) False (Fin 5)
      (online ''T'' (Fin 0) \<lparr>uiAmount = Number (Fin (5 / 2)), decimals = 6\<rparr> Null))) =
     [startLog False, TokenBalanceQuery ''ATA'',
      QuoteRequest ''T'' solAddress (Fin 2500000) (Fin 500)]
   \<and> sellAmount \<lparr>uiAmount = Number (Fin (5 / 2)), decimals = 6\<rparr> (Fin 100)
       \<in> {Fin 2499999, Fin 2500000, Fin 2500001}"
proof -
  let ?tk = "\<lparr>uiAmount = Number (Fin (5 / 2)), decimals = 6\<rparr>"
  let ?env = "online ''T'' (Fin 0) ?tk Null"
  have h1: "tokenAccount_r ?env = Resolves ''ATA''"
    and h2: "getTokenAccountBalance_r ?env = Resolves ?tk"
    by (simp_all add: online_def)
  have amount: "js_floor (js_mul (js_mul (to_number (uiAmount ?tk)) (js_div (Fin 100) (Fin 100)))
      (js_pow10 (decimals ?tk))) = Fin 2500000"
    using sellAmount_all by (simp add: sellAmount_def)
  note s = sell_amount_in_binary64 [OF h1 h2, where tokenAddress = "''T''"
      and percentage = "Fin 100" and slippage = "Fin 5" and u = "5 / 2" and p = 100 and d = 6]
  from s [THEN conjunct1]
  have "\<exists>rest. snd (attempt ''T'' (Fin 100) False (Fin 5) ?env) =
      [startLog False, TokenBalanceQuery ''ATA'',
       QuoteRequest ''T'' solAddress (Fin 2500000) (Fin 500)] @ rest"
    unfolding Let_def amount slippage_bps .
  then have first: "take 3 (snd (attempt ''T'' (Fin 100) False (Fin 5) ?env)) =
      [startLog False, TokenBalanceQuery ''ATA'',
       QuoteRequest ''T'' solAddress (Fin 2500000) (Fin 500)]"
    by auto
  have "\<lfloor>5 / 2 * (of_int 100 / 100) * 10 ^ 6 :: rat\<rfloor> = 2500000"
    by simp
  with s [THEN conjunct2] obtain n where
    n: "sellAmount ?tk (Fin (of_int 100)) = Fin (of_int n)" and "\<bar>n - 2500000\<bar> \<le> 1"
    by auto
  from this(2) have "n = 2499999 \<or> n = 2500000 \<or> n = 2500001" by arith
  with n have second: "sellAmount ?tk (Fin 100) \<in> {Fin 2499999, Fin 2500000, Fin 2500001}"
    by auto
  from first second show ?thesis by simp
qed

lemma sell_formula_left_to_right:
  "js_floor (js_mul (js_div (js_mul (Fin 100000000) (Fin 29)) (Fin 100)) (js_pow10 0))
     = Fin 29000000"
  by code_simp

text \<open>
  C8, as the claim has it, fails: selling 29 percent of 100000000 units of a token with
  no decimals asks a quote for 28999999. The claim's
  \<open>floor (uiAmount * p / 100 * 10 ^ decimals)\<close> is 29000000, whether it is read over the
  rationals or evaluated in binary64 from left to right.
\<close>

theorem sell_amount_below_exact_floor:
  "sellAmount \<lparr>uiAmount = Number (Fin 100000000), decimals = 0\<rparr> (Fin 29) = Fin 28999999
   \<and> sellAmount \<lparr>uiAmount = Number (Fin 100000000), decimals = 0\<rparr> (Fin 29)
       \<noteq> Fin (of_int \<lfloor>100000000 * 29 / 100 * 10 ^ 0 :: rat\<rfloor>)
   \<and> sellAmount \<lparr>uiAmount = Number (Fin 100000000), decimals = 0\<rparr> (Fin 29)
       \<noteq> js_floor (js_mul (js_div (js_mul (Fin 100000000) (Fin 29)) (Fin 100)) (js_pow10 0))
   \<and> take 3 (snd (attempt ''T'' (Fin 29) False (Fin 5)
        (online ''T'' (Fin 0) \<lparr>uiAmount = Number (Fin 100000000), decimals = 0\<rparr> Null))) =
       [startLog False, TokenBalanceQuery ''ATA'',
        QuoteRequest ''T'' solAddress (Fin 28999999) (Fin 500)]"
  unfolding sell_formula_left_to_right
  by (simp add: attempt_online_sell sellAmount_29_percent slippage_bps)

section \<open>Waiting for a price\<close>

lemma fetches_append [simp]: "fetches (xs @ ys) = fetches xs + fetches ys"
  by (simp add: fetches_def)

lemma fetches_Cons [simp]:
  "fetches (ev # evs) = (if is_priceQuery ev then 1 else 0) + fetches evs"
  by (simp add: fetches_def)

lemma fetches_Nil [simp]: "fetches [] = 0"
  by (simp add: fetches_def)

lemma fetches_getTokenInfo [simp]: "fetches (snd (getTokenInfo mint env)) = 1"
  unfolding getTokenInfo_def getTokenInfo_try_def fetchFromJupiter_def freezeAuthority_of_def
  by (auto simp: snd_andThen fst_andThen await_def yield_def throw_def logTransaction_def
        split: sum.splits reply.splits option.splits prod.splits if_splits)

lemma trade_quiet_getTokenInfo [simp]: "filter is_trade (snd (getTokenInfo mint env)) = []"
  by (rule quiet_getTokenInfo) simp_all

lemma wait_skip:
  assumes "\<not> priceAvailable tokenAddress env"
  shows "waitForPriceAvailability tokenAddress (env # envs) =
     (fst (waitForPriceAvailability tokenAddress envs),
      snd (getTokenInfo tokenAddress env)
      @ [LogLine WARN ''Price not available yet'' NoDetails, Sleep 1500]
      @ snd (waitForPriceAvailability tokenAddress envs))"
proof -
  obtain info evs where G: "getTokenInfo tokenAddress env = (info, evs)"
    by (cases "getTokenInfo tokenAddress env")
  with assms show ?thesis
    by (cases info) (simp_all add: priceAvailable_def logTransaction_def Let_def split: prod.splits)
qed

lemma wait_hit:
  assumes "priceAvailable tokenAddress env"
  shows "\<exists>info. fst (getTokenInfo tokenAddress env) = Some info \<and> truthy (price info)
     \<and> waitForPriceAvailability tokenAddress (env # envs) =
        (Returns (price info),
         snd (getTokenInfo tokenAddress env)
         @ [LogLine INFO ''Price available for token'' NoDetails])"
proof -
  obtain info evs where G: "getTokenInfo tokenAddress env = (info, evs)"
    by (cases "getTokenInfo tokenAddress env")
  with assms show ?thesis
    by (cases info) (simp_all add: priceAvailable_def logTransaction_def Let_def)
qed

lemma wait_first_available:
  assumes "\<forall>env\<in>set before. \<not> priceAvailable tokenAddress env"
    and "priceAvailable tokenAddress env"
  shows "\<exists>info. fst (getTokenInfo tokenAddress env) = Some info \<and> truthy (price info)
     \<and> fst (waitForPriceAvailability tokenAddress (before @ env # after)) = Returns (price info)
     \<and> fetches (snd (waitForPriceAvailability tokenAddress (before @ env # after)))
         = length before + 1"
  using assms(1)
proof (induction before)
  case Nil
  from wait_hit [OF assms(2), of after] show ?case by auto
next
  case (Cons e before)
  then have skip: "\<not> priceAvailable tokenAddress e" by simp
  from Cons have "\<exists>info. fst (getTokenInfo tokenAddress env) = Some info \<and> truthy (price info)
     \<and> fst (waitForPriceAvailability tokenAddress (before @ env # after)) = Returns (price info)
     \<and> fetches (snd (waitForPriceAvailability tokenAddress (before @ env # after)))
         = length before + 1" by simp
  then show ?case
    using wait_skip [OF skip, of "before @ env # after"] by auto
qed

lemma wait_none_available:
  assumes "\<forall>env\<in>set envs. \<not> priceAvailable tokenAddress env"
  shows "fst (waitForPriceAvailability tokenAddress envs) = Pending
     \<and> fetches (snd (waitForPriceAvailability tokenAddress envs)) = length envs"
  using assms
proof (induction envs)
  case Nil
  then show ?case by simp
next
  case (Cons e envs)
  then have skip: "\<not> priceAvailable tokenAddress e" by simp
  from Cons show ?case
    using wait_skip [OF skip, of envs] by simp
qed

lemma available_priced: "priceAvailable mint (priced mint p) = truthy p"
  by (simp add: priceAvailable_def getTokenInfo_priced)

lemma available_priceDown: "\<not> priceAvailable mint priceDown"
  by (simp add: priceAvailable_def getTokenInfo_priceDown)

text \<open>
  C4, as the code has it. \<^verbatim>\<open>waitForPriceAvailability\<close> returns on exactly the first
  call of \<^verbatim>\<open>getTokenInfo\<close> whose result is not \<^verbatim>\<open>null\<close> and has a truthy price (a
  number other than 0 and NaN), and returns that price: with \<open>before\<close> the replies that
  give no such result and \<open>env\<close> the first that does, the run makes
  \<open>length before + 1\<close> calls, whatever would come \<open>after\<close>. As long as no reply gives
  such a result the run keeps polling, one call per reply.
\<close>

theorem wait_returns_first_truthy_price:
  "((\<forall>env\<in>set before. \<not> priceAvailable tokenAddress env) \<and> priceAvailable tokenAddress env
      \<longrightarrow> (\<exists>info. fst (getTokenInfo tokenAddress env) = Some info \<and> truthy (price info)
            \<and> fst (waitForPriceAvailability tokenAddress (before @ env # after))
                = Returns (price info))
          \<and> fetches (snd (waitForPriceAvailability tokenAddress (before @ env # after)))
              = length before + 1)
   \<and> ((\<forall>env\<in>set envs. \<not> priceAvailable tokenAddress env)
      \<longrightarrow> fst (waitForPriceAvailability tokenAddress envs) = Pending
          \<and> fetches (snd (waitForPriceAvailability tokenAddress envs)) = length envs)"
  using wait_first_available [of before tokenAddress env after]
    wait_none_available [of envs tokenAddress]
  by blast

theorem wait_returns_first_truthy_price_witness:
  "fst (waitForPriceAvailability ''T''
         [priceDown, priced ''T'' Undefined, priced ''T'' (Number (Fin 3)),
          priced ''T'' (Number (Fin 9))]) = Returns (Number (Fin 3))
   \<and> fetches (snd (waitForPriceAvailability ''T''
         [priceDown, priced ''T'' Undefined, priced ''T'' (Number (Fin 3)),
          priced ''T'' (Number (Fin 9))])) = 3
   \<and> fst (waitForPriceAvailability ''T'' [priceDown, priced ''T'' Undefined]) = Pending"
proof -
  have h1: "\<forall>env\<in>set [priceDown, priced ''T'' Undefined]. \<not> priceAvailable ''T'' env"
    by (simp add: available_priced available_priceDown)
  have h2: "priceAvailable ''T'' (priced ''T'' (Number (Fin 3)))"
    by (simp add: available_priced)
  from wait_returns_first_truthy_price [of "[priceDown, priced ''T'' Undefined]" "''T''"
      "priced ''T'' (Number (Fin 3))" "[priced ''T'' (Number (Fin 9))]"
      "[priceDown, priced ''T'' Undefined]"] h1 h2
  show ?thesis
    by (simp add: getTokenInfo_priced)
qed

text \<open>
  C4, as the claim has it, fails: a result that is not \<^verbatim>\<open>null\<close> and whose price field is
  defined, but 0, does not end the wait. The run polls again and returns the price of the
  second call.
\<close>

theorem wait_ignores_zero_price:
  "fst (getTokenInfo ''T'' (priced ''T'' (Number (Fin 0)))) =
     Some \<lparr>price = Number (Fin 0), source = ''jupiter'', isFreezable = False\<rparr>
   \<and> fst (waitForPriceAvailability ''T'' [priced ''T'' (Number (Fin 0))]) = Pending
   \<and> fst (waitForPriceAvailability ''T''
            [priced ''T'' (Number (Fin 0)), priced ''T'' (Number (Fin 7))])
       = Returns (Number (Fin 7))
   \<and> fetches (snd (waitForPriceAvailability ''T''
            [priced ''T'' (Number (Fin 0)), priced ''T'' (Number (Fin 7))])) = 2"
  by (simp add: getTokenInfo_priced logTransaction_def)

section \<open>Selling at the target\<close>

lemma is_start_trade: "is_start ev \<Longrightarrow> is_trade ev"
  by (cases ev) simp_all

lemma attempt_first_event:
  "\<exists>rest. snd (attempt tokenAddress percentage isBuy slippage env) = startLog isBuy # rest"
  by (simp add: attempt_def emit_def logTransaction_def startLog_def)

lemma trade_first_event:
  assumes "1 \<le> maxRetries"
  shows "\<exists>rest. snd (tradeTokenWithJupiter tokenAddress percentage isBuy slippage maxRetries envs)
           = startLog isBuy # rest"
proof -
  obtain res evs where A: "attempt tokenAddress percentage isBuy slippage (envs 0) = (res, evs)"
    by (cases "attempt tokenAddress percentage isBuy slippage (envs 0)")
  with attempt_first_event [of tokenAddress percentage isBuy slippage "envs 0"]
  obtain rest where evs: "evs = startLog isBuy # rest" by auto
  from assms have lt: "int 0 < maxRetries" by simp
  show ?thesis
  proof (cases res)
    case (Inr v)
    with A lt evs show ?thesis
      by (simp add: tradeTokenWithJupiter_def tradeLoop_return)
  next
    case (Inl e)
    show ?thesis
    proof (cases "int (Suc 0) < maxRetries")
      case True
      from tradeLoop_fail_step [OF lt True, of tokenAddress percentage isBuy slippage envs e evs]
        A Inl evs
      show ?thesis by (simp add: tradeTokenWithJupiter_def)
    next
      case False
      from tradeLoop_fail_last [OF lt False, of tokenAddress percentage isBuy slippage envs e evs]
        A Inl evs
      show ?thesis by (simp add: tradeTokenWithJupiter_def)
    qed
  qed
qed

lemma monitor_skip:
  assumes "\<not> targetMet (fst (getTokenInfo tokenAddress env)) threshold"
  shows "monitorLoop tokenAddress threshold (env # envs) sell =
     (fst (monitorLoop tokenAddress threshold envs sell),
      snd (getTokenInfo tokenAddress env)
      @ [LogLine INFO ''Monitoring price...'' NoDetails, Sleep 2000]
      @ snd (monitorLoop tokenAddress threshold envs sell))"
proof -
  obtain info evs where G: "getTokenInfo tokenAddress env = (info, evs)"
    by (cases "getTokenInfo tokenAddress env")
  with assms show ?thesis
    by (simp add: logTransaction_def split: prod.splits)
qed

lemma monitor_hit:
  assumes "targetMet (fst (getTokenInfo tokenAddress env)) threshold"
  shows "monitorLoop tokenAddress threshold (env # envs) sell =
     (Returns (),
      snd (getTokenInfo tokenAddress env)
      @ [LogLine INFO ''Price target met!'' NoDetails]
      @ snd (tradeTokenWithJupiter tokenAddress (Fin 100) False (Fin 5) 3 sell))"
proof -
  obtain info evs where G: "getTokenInfo tokenAddress env = (info, evs)"
    by (cases "getTokenInfo tokenAddress env")
  with assms show ?thesis
    by (simp add: logTransaction_def split: prod.splits)
qed

lemma monitor_first_hit:
  assumes "\<forall>env\<in>set before. \<not> targetMet (fst (getTokenInfo tokenAddress env)) threshold"
    and "targetMet (fst (getTokenInfo tokenAddress env)) threshold"
  shows "\<exists>polling. monitorLoop tokenAddress threshold (before @ env # after) sell =
       (Returns (),
        polling @ snd (tradeTokenWithJupiter tokenAddress (Fin 100) False (Fin 5) 3 sell))
     \<and> filter is_trade polling = [] \<and> fetches polling = length before + 1"
  using assms(1)
proof (induction before)
  case Nil
  let ?polling = "snd (getTokenInfo tokenAddress env) @ [LogLine INFO ''Price target met!'' NoDetails]"
  have "filter is_trade ?polling = []" "fetches ?polling = 1"
    by simp_all
  with monitor_hit [OF assms(2), of after sell] show ?case
    by (intro exI [of _ ?polling]) simp
next
  case (Cons e before)
  then have skip: "\<not> targetMet (fst (getTokenInfo tokenAddress e)) threshold" by simp
  from Cons obtain polling where
    P: "monitorLoop tokenAddress threshold (before @ env # after) sell =
       (Returns (),
        polling @ snd (tradeTokenWithJupiter tokenAddress (Fin 100) False (Fin 5) 3 sell))"
      "filter is_trade polling = []" "fetches polling = length before + 1"
    by auto
  let ?polling = "snd (getTokenInfo tokenAddress e)
      @ [LogLine INFO ''Monitoring price...'' NoDetails, Sleep 2000] @ polling"
  from P have "filter is_trade ?polling = []" "fetches ?polling = length (e # before) + 1"
    by simp_all
  with monitor_skip [OF skip, of "before @ env # after" sell] P(1) show ?case
    by (intro exI [of _ ?polling]) simp
qed

lemma monitor_no_hit:
  assumes "\<forall>env\<in>set envs. \<not> targetMet (fst (getTokenInfo tokenAddress env)) threshold"
  shows "fst (monitorLoop tokenAddress threshold envs sell) = Pending
     \<and> filter is_trade (snd (monitorLoop tokenAddress threshold envs sell)) = []
     \<and> fetches (snd (monitorLoop tokenAddress threshold envs sell)) = length envs"
  using assms
proof (induction envs)
  case Nil
  then show ?case by simp
next
  case (Cons e envs)
  then have skip: "\<not> targetMet (fst (getTokenInfo tokenAddress e)) threshold" by simp
  from Cons show ?case
    using monitor_skip [OF skip, of envs sell] by simp
qed

lemma monitor_sells_iff:
  "(\<exists>env\<in>set envs. targetMet (fst (getTokenInfo tokenAddress env)) threshold) =
   (\<exists>ev\<in>set (snd (monitorLoop tokenAddress threshold envs sell)). is_start ev)"
proof
  assume "\<exists>env\<in>set envs. targetMet (fst (getTokenInfo tokenAddress env)) threshold"
  from split_list_first_prop
    [where P = "\<lambda>env. targetMet (fst (getTokenInfo tokenAddress env)) threshold", OF this]
  obtain before env after where
    split: "envs = before @ env # after"
      "targetMet (fst (getTokenInfo tokenAddress env)) threshold"
      "\<forall>e\<in>set before. \<not> targetMet (fst (getTokenInfo tokenAddress e)) threshold"
    by blast
  from monitor_first_hit [OF split(3,2), of after sell] obtain polling where
    "monitorLoop tokenAddress threshold (before @ env # after) sell =
       (Returns (),
        polling @ snd (tradeTokenWithJupiter tokenAddress (Fin 100) False (Fin 5) 3 sell))"
    by blast
  moreover obtain rest where
    "snd (tradeTokenWithJupiter tokenAddress (Fin 100) False (Fin 5) 3 sell) = startLog False # rest"
    using trade_first_event [of 3 tokenAddress "Fin 100" False "Fin 5" sell] by auto
  ultimately have "startLog False \<in> set (snd (monitorLoop tokenAddress threshold envs sell))"
    using split(1) by simp
  moreover have "is_start (startLog False)" by (simp add: startLog_def)
  ultimately show "\<exists>ev\<in>set (snd (monitorLoop tokenAddress threshold envs sell)). is_start ev"
    by blast
next
  assume R: "\<exists>ev\<in>set (snd (monitorLoop tokenAddress threshold envs sell)). is_start ev"
  show "\<exists>env\<in>set envs. targetMet (fst (getTokenInfo tokenAddress env)) threshold"
  proof (rule ccontr)
    assume "\<not> (\<exists>env\<in>set envs. targetMet (fst (getTokenInfo tokenAddress env)) threshold)"
    then have "\<forall>env\<in>set envs. \<not> targetMet (fst (getTokenInfo tokenAddress env)) threshold"
      by blast
    from monitor_no_hit [OF this, of sell]
    have "filter is_trade (snd (monitorLoop tokenAddress threshold envs sell)) = []" by simp
    then have "\<forall>ev\<in>set (snd (monitorLoop tokenAddress threshold envs sell)). \<not> is_trade ev"
      by (simp add: filter_empty_conv)
    with R show False by (blast dest: is_start_trade)
  qed
qed

lemma threshold_of_one:
  "js_mul (to_number (Number (Fin 1))) (rnd (12 / 10))
     = Fin (5404319552844595 / 4503599627370496)"
  by code_simp

lemma threshold_of_zero:
  "js_mul (to_number (Number (Fin 0))) (rnd (12 / 10)) = Fin 0"
  by code_simp

text \<open>
  C1. Let \<^verbatim>\<open>initialPrice\<close> be anything but \<^verbatim>\<open>null\<close>. The threshold is the product
  \<^verbatim>\<open>initialPrice * 1.2\<close>, the literal being the binary64 value nearest to \<open>12 / 10\<close> and
  the product rounded. A reply shows the target when \<^verbatim>\<open>getTokenInfo\<close> gives a result
  that is not \<^verbatim>\<open>null\<close> and whose price is \<^verbatim>\<open>>=\<close> the threshold. Both operators are
  JavaScript's: they take the number of their operand, so that a price that is itself
  \<^verbatim>\<open>null\<close> is compared as 0, and a missing price, or a missing initial price, as NaN,
  which is \<^verbatim>\<open>>=\<close> nothing and which nothing is \<^verbatim>\<open>>=\<close>. With \<open>before\<close> the replies that
  do not show the target and \<open>env\<close> the first that does, \<^verbatim>\<open>monitorAndSell\<close> polls
  \<open>length before + 1\<close> times without any event of a trade, then runs
  \<^verbatim>\<open>tradeTokenWithJupiter(tokenAddress, 100, false)\<close> once, and returns. As long as no
  reply shows the target, it keeps polling and leaves no event of a trade. So a sell is
  started if and only if some reply shows the target.
\<close>

theorem sells_iff_target_seen:
  assumes "initialPrice \<noteq> Null"
  shows "let threshold = js_mul (to_number initialPrice) (rnd (12 / 10));
             target = (\<lambda>reply. case fst (getTokenInfo tokenAddress reply) of
                          None \<Rightarrow> False
                        | Some info \<Rightarrow> js_ge (to_number (price info)) threshold);
             sale = snd (tradeTokenWithJupiter tokenAddress (Fin 100) False (Fin 5) 3 sell)
         in ((\<forall>reply\<in>set before. \<not> target reply) \<and> target env
              \<longrightarrow> (\<exists>polling. monitorAndSell tokenAddress initialPrice (before @ env # after) sell =
                      (Returns (), polling @ sale)
                    \<and> filter is_trade polling = [] \<and> fetches polling = length before + 1))
           \<and> ((\<forall>reply\<in>set envs. \<not> target reply)
              \<longrightarrow> fst (monitorAndSell tokenAddress initialPrice envs sell) = Pending
                  \<and> filter is_trade (snd (monitorAndSell tokenAddress initialPrice envs sell)) = [])
           \<and> ((\<exists>reply\<in>set envs. target reply) =
              (\<exists>ev\<in>set (snd (monitorAndSell tokenAddress initialPrice envs sell)). is_start ev))"
proof -
  from assms have run: "monitorAndSell tokenAddress initialPrice es sell =
      monitorLoop tokenAddress (sellThreshold initialPrice) es sell" for es
    by (simp add: monitorAndSell_def)
  have target: "(case fst (getTokenInfo tokenAddress reply) of
        None \<Rightarrow> False
      | Some info \<Rightarrow>
          js_ge (to_number (price info)) (js_mul (to_number initialPrice) (rnd (12 / 10)))) =
      targetMet (fst (getTokenInfo tokenAddress reply)) (sellThreshold initialPrice)" for reply
    unfolding targetMet_def sellThreshold_def ..
  show ?thesis
    unfolding Let_def target run
    using monitor_first_hit [of before tokenAddress "sellThreshold initialPrice" env after sell]
      monitor_no_hit [of envs tokenAddress "sellThreshold initialPrice" sell]
      monitor_sells_iff [of envs tokenAddress "sellThreshold initialPrice" sell]
    by simp
qed

theorem sells_iff_target_seen_witness:
  "(\<exists>polling. monitorAndSell ''T'' (Number (Fin 1))
        [priced ''T'' (Number (Fin 1)), priced ''T'' (Number (Fin (5 / 4)))] (\<lambda>k. offline) =
      (Returns (),
       polling @ snd (tradeTokenWithJupiter ''T'' (Fin 100) False (Fin 5) 3 (\<lambda>k. offline)))
      \<and> filter is_trade polling = [] \<and> fetches polling = 2)
   \<and> fst (monitorAndSell ''T'' (Number (Fin 1))
            [priced ''T'' (Number (Fin 1)), priceDown, priced ''T'' Undefined,
             priced ''T'' Null] (\<lambda>k. offline))
       = Pending
   \<and> filter is_trade
        (snd (monitorAndSell ''T'' (Number (Fin 1))
               [priced ''T'' (Number (Fin 1)), priceDown, priced ''T'' Undefined,
                priced ''T'' Null] (\<lambda>k. offline))) = []
   \<and> (\<exists>polling. monitorAndSell ''T'' (Number (Fin 0)) [priced ''T'' Null] (\<lambda>k. offline) =
        (Returns (),
         polling @ snd (tradeTokenWithJupiter ''T'' (Fin 100) False (Fin 5) 3 (\<lambda>k. offline)))
        \<and> filter is_trade polling = [] \<and> fetches polling = 1)"
proof -
  have h0: "Number (Fin 1) \<noteq> Null" "Number (Fin 0) \<noteq> Null" by simp_all
  note one = sells_iff_target_seen [OF h0(1), where tokenAddress = "''T''"
      and before = "[priced ''T'' (Number (Fin 1))]"
      and env = "priced ''T'' (Number (Fin (5 / 4)))" and after = "[]" and sell = "\<lambda>k. offline"
      and envs = "[priced ''T'' (Number (Fin 1)), priceDown, priced ''T'' Undefined,
                   priced ''T'' Null]",
      unfolded Let_def threshold_of_one]
  note zero = sells_iff_target_seen [OF h0(2), where tokenAddress = "''T''"
      and before = "[]" and env = "priced ''T'' Null" and after = "[]" and sell = "\<lambda>k. offline"
      and envs = "[]", unfolded Let_def threshold_of_zero]
  from one have first: "\<exists>polling. monitorAndSell ''T'' (Number (Fin 1))
        [priced ''T'' (Number (Fin 1)), priced ''T'' (Number (Fin (5 / 4)))] (\<lambda>k. offline) =
      (Returns (),
       polling @ snd (tradeTokenWithJupiter ''T'' (Fin 100) False (Fin 5) 3 (\<lambda>k. offline)))
      \<and> filter is_trade polling = [] \<and> fetches polling = 2"
    by (simp add: getTokenInfo_priced numeral_2_eq_2)
  from one have second: "fst (monitorAndSell ''T'' (Number (Fin 1))
        [priced ''T'' (Number (Fin 1)), priceDown, priced ''T'' Undefined,
         priced ''T'' Null] (\<lambda>k. offline)) = Pending
    \<and> filter is_trade
        (snd (monitorAndSell ''T'' (Number (Fin 1))
               [priced ''T'' (Number (Fin 1)), priceDown, priced ''T'' Undefined,
                priced ''T'' Null] (\<lambda>k. offline))) = []"
    by (simp add: getTokenInfo_priced getTokenInfo_priceDown)
  from zero have third: "\<exists>polling. monitorAndSell ''T'' (Number (Fin 0)) [priced ''T'' Null]
        (\<lambda>k. offline) =
      (Returns (),
       polling @ snd (tradeTokenWithJupiter ''T'' (Fin 100) False (Fin 5) 3 (\<lambda>k. offline)))
      \<and> filter is_trade polling = [] \<and> fetches polling = 1"
    by (simp add: getTokenInfo_priced)
  from first second third show ?thesis by simp
qed

section \<open>What getTokenInfo gives\<close>

lemma getTokenInfo_answered:
  assumes "priceEntry mint env = Some p" and "mintKey_ok env" and "mintAuthority env = Some a"
  shows "getTokenInfo mint env =
     (Some \<lparr>price = p, source = ''jupiter'', isFreezable = (a \<noteq> AuthNull)\<rparr>,
      [PriceQuery mint, MintAccountQuery mint])"
  using assms
  unfolding getTokenInfo_def getTokenInfo_try_def fetchFromJupiter_def freezeAuthority_of_def
    priceEntry_def mintAuthority_def
  by (auto simp: await_def yield_def throw_def split: reply.splits option.splits)

lemma getTokenInfo_failed:
  assumes "priceEntry mint env = None \<or> \<not> mintKey_ok env \<or> mintAuthority env = None"
  shows "\<exists>e evs. getTokenInfo mint env =
       (None, evs @ [LogLine ERROR ''Error fetching token info'' (ErrorDetail e)])
     \<and> set evs \<subseteq> {PriceQuery mint, MintAccountQuery mint}"
proof -
  obtain res evs where T: "getTokenInfo_try mint env = (res, evs)"
    by (cases "getTokenInfo_try mint env")
  have "isl res"
    using assms T
    unfolding getTokenInfo_try_def fetchFromJupiter_def freezeAuthority_of_def
      priceEntry_def mintAuthority_def
    by (auto simp: await_def yield_def throw_def check_def
          split: reply.splits option.splits if_splits)
  then obtain e where "res = Inl e" by (cases res) simp_all
  with T have "getTokenInfo mint env =
      (None, evs @ [LogLine ERROR ''Error fetching token info'' (ErrorDetail e)])"
    by (simp add: getTokenInfo_def logTransaction_def)
  moreover from T getTokenInfo_try_events [of mint env]
  have "set evs \<subseteq> {PriceQuery mint, MintAccountQuery mint}" by simp
  ultimately show ?thesis by blast
qed

text \<open>
  C7, as the code has it. \<^verbatim>\<open>getTokenInfo\<close> never throws; it gives one of two things.
  When the price reply has an entry for the mint, the mint is a public key and the
  account reply is a parsed account with its \<^verbatim>\<open>info\<close>, it gives the object with
  \<^verbatim>\<open>price\<close> (the entry's price member as it is), \<^verbatim>\<open>source\<close> and \<^verbatim>\<open>isFreezable\<close>, and
  logs nothing. In every other case (a rejected call, no entry for the mint, a mint that
  is no public key, account data of another shape) it gives \<^verbatim>\<open>null\<close>, and the last event
  is the error line that carries the swallowed error.
\<close>

theorem getTokenInfo_null_or_info:
  "(\<exists>p a. priceEntry mint env = Some p \<and> mintKey_ok env \<and> mintAuthority env = Some a
      \<and> getTokenInfo mint env =
          (Some \<lparr>price = p, source = ''jupiter'', isFreezable = (a \<noteq> AuthNull)\<rparr>,
           [PriceQuery mint, MintAccountQuery mint]))
   \<or> ((priceEntry mint env = None \<or> mintAuthority env = None \<or> \<not> mintKey_ok env)
      \<and> (\<exists>e evs. getTokenInfo mint env =
             (None, evs @ [LogLine ERROR ''Error fetching token info'' (ErrorDetail e)])
           \<and> set evs \<subseteq> {PriceQuery mint, MintAccountQuery mint}))"
proof (cases "priceEntry mint env = None \<or> \<not> mintKey_ok env \<or> mintAuthority env = None")
  case True
  from getTokenInfo_failed [OF True] True show ?thesis by blast
next
  case False
  then obtain p a where "priceEntry mint env = Some p" "mintKey_ok env" "mintAuthority env = Some a"
    by auto
  with getTokenInfo_answered [of mint env p a] show ?thesis by blast
qed

theorem getTokenInfo_null_or_info_witness:
  "getTokenInfo ''T'' (priced ''T'' (Number (Fin 2))) =
     (Some \<lparr>price = Number (Fin 2), source = ''jupiter'', isFreezable = False\<rparr>,
      [PriceQuery ''T'', MintAccountQuery ''T''])
   \<and> fst (getTokenInfo ''T'' priceDown) = None"
proof -
  have e: "priceEntry ''T'' (priced ''T'' (Number (Fin 2))) = Some (Number (Fin 2))"
    "mintAuthority (priced ''T'' (Number (Fin 2))) = Some AuthNull"
    "mintKey_ok (priced ''T'' (Number (Fin 2)))"
    "priceEntry ''T'' priceDown = None"
    by (simp_all add: priceEntry_def mintAuthority_def priced_def priceDown_def)
  from getTokenInfo_null_or_info [of "''T''" "priced ''T'' (Number (Fin 2))"]
    getTokenInfo_null_or_info [of "''T''" priceDown] e
  show ?thesis by auto
qed

text \<open>
  C7, as the claim has it, fails for a missing price field: an entry for the mint that has
  no \<^verbatim>\<open>price\<close> member is no failure. The result is not \<^verbatim>\<open>null\<close> but an object whose
  price is \<^verbatim>\<open>undefined\<close>, and nothing is logged.
\<close>

theorem getTokenInfo_entry_without_price:
  "getTokenInfo ''T'' (priced ''T'' Undefined) =
     (Some \<lparr>price = Undefined, source = ''jupiter'', isFreezable = False\<rparr>,
      [PriceQuery ''T'', MintAccountQuery ''T''])
   \<and> fst (getTokenInfo ''T'' (priced ''T'' Undefined)) \<noteq> None"
  by (simp add: getTokenInfo_priced)

section \<open>Missing configuration\<close>

text \<open>
  C9, as the code has it. Without \<^verbatim>\<open>PRIVATE_KEY\<close> the module throws while it loads:
  nothing is logged through \<^verbatim>\<open>logTransaction\<close>, \<^verbatim>\<open>process.exit\<close> is not called, and
  \<^verbatim>\<open>checkEnvVariables\<close> is never reached. With a \<^verbatim>\<open>PRIVATE_KEY\<close> that decodes and
  without \<^verbatim>\<open>API_KEY\<close>, the list \<^verbatim>\<open>['API_KEY']\<close> is logged and the process exits with
  code 1. With both, the run goes on. \<^verbatim>\<open>checkEnvVariables\<close> itself, whenever it is
  called with a required variable missing, logs the missing ones and exits with code 1.
\<close>

theorem startUp_outcomes:
  "(\<not> isSet penv ''PRIVATE_KEY'' \<longrightarrow>
      startUp penv decodes = (Crashed ''PRIVATE_KEY environment variable is not set.'', []))
   \<and> (penv ''PRIVATE_KEY'' = Some privateKey \<and> privateKey \<noteq> [] \<and> decodes privateKey
      \<and> \<not> isSet penv ''API_KEY'' \<longrightarrow>
      startUp penv decodes =
        (Exited 1,
         [LogLine ERROR ''Missing environment variables'' (MissingVars [''API_KEY'']),
          ProcessExit 1]))
   \<and> (penv ''PRIVATE_KEY'' = Some privateKey \<and> privateKey \<noteq> [] \<and> decodes privateKey
      \<and> isSet penv ''API_KEY'' \<longrightarrow>
      startUp penv decodes = (Started, []))
   \<and> ((\<exists>v\<in>set requiredEnvVars. \<not> isSet penv v) \<longrightarrow>
      checkEnvVariables penv =
        (Exited 1,
         [LogLine ERROR ''Missing environment variables''
            (MissingVars (filter (\<lambda>v. \<not> isSet penv v) requiredEnvVars)),
          ProcessExit 1]))"
proof (intro conjI impI)
  assume "\<not> isSet penv ''PRIVATE_KEY''"
  then show "startUp penv decodes =
      (Crashed ''PRIVATE_KEY environment variable is not set.'', [])"
    by (simp add: startUp_def moduleTopLevel_def isSet_def split: option.splits)
next
  assume "penv ''PRIVATE_KEY'' = Some privateKey \<and> privateKey \<noteq> [] \<and> decodes privateKey
      \<and> \<not> isSet penv ''API_KEY''"
  then show "startUp penv decodes =
        (Exited 1,
         [LogLine ERROR ''Missing environment variables'' (MissingVars [''API_KEY'']),
          ProcessExit 1])"
    by (simp add: startUp_def moduleTopLevel_def checkEnvVariables_def requiredEnvVars_def
          isSet_def logTransaction_def)
next
  assume "penv ''PRIVATE_KEY'' = Some privateKey \<and> privateKey \<noteq> [] \<and> decodes privateKey
      \<and> isSet penv ''API_KEY''"
  then show "startUp penv decodes = (Started, [])"
    by (simp add: startUp_def moduleTopLevel_def checkEnvVariables_def requiredEnvVars_def
          isSet_def)
next
  assume "\<exists>v\<in>set requiredEnvVars. \<not> isSet penv v"
  then have "filter (\<lambda>v. \<not> isSet penv v) requiredEnvVars \<noteq> []"
    by (simp add: filter_empty_conv)
  then show "checkEnvVariables penv =
        (Exited 1,
         [LogLine ERROR ''Missing environment variables''
            (MissingVars (filter (\<lambda>v. \<not> isSet penv v) requiredEnvVars)),
          ProcessExit 1])"
    by (simp add: checkEnvVariables_def logTransaction_def Let_def)
qed

theorem startUp_outcomes_witness:
  "startUp [''PRIVATE_KEY'' \<mapsto> ''4f3a''] (\<lambda>key. True) =
     (Exited 1,
      [LogLine ERROR ''Missing environment variables'' (MissingVars [''API_KEY'']),
       ProcessExit 1])
   \<and> startUp Map.empty (\<lambda>key. True) =
       (Crashed ''PRIVATE_KEY environment variable is not set.'', [])
   \<and> startUp [''PRIVATE_KEY'' \<mapsto> ''4f3a'', ''API_KEY'' \<mapsto> ''abc''] (\<lambda>key. True) = (Started, [])
   \<and> checkEnvVariables Map.empty =
       (Exited 1,
        [LogLine ERROR ''Missing environment variables''
           (MissingVars [''PRIVATE_KEY'', ''API_KEY'']),
         ProcessExit 1])"
proof -
  note a = startUp_outcomes [of "[''PRIVATE_KEY'' \<mapsto> ''4f3a'']" "\<lambda>key. True" "''4f3a''"]
  note b = startUp_outcomes [of Map.empty "\<lambda>key. True" "''4f3a''"]
  note c = startUp_outcomes [of "[''PRIVATE_KEY'' \<mapsto> ''4f3a'', ''API_KEY'' \<mapsto> ''abc'']"
      "\<lambda>key. True" "''4f3a''"]
  from a have "startUp [''PRIVATE_KEY'' \<mapsto> ''4f3a''] (\<lambda>key. True) =
     (Exited 1,
      [LogLine ERROR ''Missing environment variables'' (MissingVars [''API_KEY'']),
       ProcessExit 1])"
    by (simp add: isSet_def)
  moreover from b have "startUp Map.empty (\<lambda>key. True) =
       (Crashed ''PRIVATE_KEY environment variable is not set.'', [])"
    by (simp add: isSet_def)
  moreover from c have
    "startUp [''PRIVATE_KEY'' \<mapsto> ''4f3a'', ''API_KEY'' \<mapsto> ''abc''] (\<lambda>key. True) = (Started, [])"
    by (simp add: isSet_def)
  moreover from b have "checkEnvVariables Map.empty =
       (Exited 1,
        [LogLine ERROR ''Missing environment variables''
           (MissingVars [''PRIVATE_KEY'', ''API_KEY'']),
         ProcessExit 1])"
    by (auto simp: isSet_def requiredEnvVars_def)
  ultimately show ?thesis by simp
qed

text \<open>
  C9, as the claim has it, fails for \<^verbatim>\<open>PRIVATE_KEY\<close>: with only \<^verbatim>\<open>API_KEY\<close> set, the
  run ends in the exception of line 17 and the list of missing variables is not logged.
\<close>

theorem missing_private_key_not_listed:
  "startUp [''API_KEY'' \<mapsto> ''abc''] (\<lambda>key. True) =
     (Crashed ''PRIVATE_KEY environment variable is not set.'', [])
   \<and> snd (startUp [''API_KEY'' \<mapsto> ''abc''] (\<lambda>key. True)) \<noteq>
       [LogLine ERROR ''Missing environment variables'' (MissingVars [''PRIVATE_KEY'']),
        ProcessExit 1]"
  by (simp add: startUp_def moduleTopLevel_def)

end
